theory Spec2Isabelle
  imports Complex_Main
begin

section \<open>Rate limiter (app/api/review/route.ts, lines 12-46)\<close>

text \<open>
  Timestamps are the integers returned by \<^verbatim>\<open>Date.now()\<close> (milliseconds since the epoch).
  The process-wide \<^verbatim>\<open>rateLimitStore = new Map<string, number[]>()\<close> is a partial map
  from client ids to timestamp lists; every function that touches it takes the store and
  returns the updated store.
\<close>

definition RATE_LIMIT_WINDOW_MS :: int where
  "RATE_LIMIT_WINDOW_MS = 60000"

definition RATE_LIMIT_MAX :: nat where
  "RATE_LIMIT_MAX = 5"

type_synonym rate_store = "string \<rightharpoonup> int list"

record rl_result =
  limited :: bool
  retryAfterSec :: int

text \<open>\<^verbatim>\<open>rateLimitStore.get(ip) ?? []\<close>\<close>

definition history :: "rate_store \<Rightarrow> string \<Rightarrow> int list" where
  "history store ip = (case store ip of None \<Rightarrow> [] | Some h \<Rightarrow> h)"

text \<open>\<^verbatim>\<open>history.filter((t) => now - t < RATE_LIMIT_WINDOW_MS)\<close>\<close>

definition fresh :: "rate_store \<Rightarrow> string \<Rightarrow> int \<Rightarrow> int list" where
  "fresh store ip now = filter (\<lambda>t. now - t < RATE_LIMIT_WINDOW_MS) (history store ip)"

text \<open>
  \<^verbatim>\<open>Math.ceil(retryAfterMs / 1000)\<close>: the quotient of an integer number of milliseconds
  by 1000, rounded up.
\<close>

definition ceil_sec :: "int \<Rightarrow> int" where
  "ceil_sec ms = \<lceil>real_of_int ms / 1000\<rceil>"

text \<open>
  \<^verbatim>\<open>isRateLimited(ip)\<close>, with the clock reading \<open>now\<close> and the store made explicit.
  The denying branch returns without touching the store; the admitting branch writes the
  pruned list with \<open>now\<close> appended back under \<open>ip\<close>.
\<close>

definition isRateLimited :: "rate_store \<Rightarrow> string \<Rightarrow> int \<Rightarrow> rl_result \<times> rate_store" where
  "isRateLimited store ip now =
     (let fr = fresh store ip now in
      if RATE_LIMIT_MAX \<le> length fr then
        (let oldest = (case fr of [] \<Rightarrow> now | t # _ \<Rightarrow> t);
             retryAfterMs = max 0 (RATE_LIMIT_WINDOW_MS - (now - oldest))
         in (\<lparr>limited = True, retryAfterSec = ceil_sec retryAfterMs\<rparr>, store))
      else (\<lparr>limited = False, retryAfterSec = 0\<rparr>, store(ip \<mapsto> fr @ [now])))"

text \<open>
  A sequence of admission calls, each a pair of the calling client id and the clock reading
  at the call, run against the store in order; the results are returned in call order with
  the final store.
\<close>

fun admissions :: "rate_store \<Rightarrow> (string \<times> int) list \<Rightarrow> rl_result list \<times> rate_store" where
  "admissions store [] = ([], store)"
| "admissions store ((ip, now) # calls) =
     (case isRateLimited store ip now of
        (r, store') \<Rightarrow> (case admissions store' calls of (rs, store'') \<Rightarrow> (r # rs, store'')))"

text \<open>
  The limiter as the specification words it, written without reference to the functions
  above. First the stored timestamps of a client that remain after pruning at the time
  \<open>now\<close>: those less than 60000 ms old, in stored order (a timestamp exactly 60000 ms old
  is dropped).
\<close>

definition spec_remaining :: "rate_store \<Rightarrow> string \<Rightarrow> int \<Rightarrow> int list" where
  "spec_remaining store ip now =
     filter (\<lambda>t. now - t < 60000) (case store ip of None \<Rightarrow> [] | Some stored \<Rightarrow> stored)"

text \<open>
  Then the wait on denial: the time left until the oldest remaining timestamp leaves the
  window, in seconds, rounded up, and clamped to at least 0.
\<close>

definition spec_retryAfterSeconds :: "int \<Rightarrow> int \<Rightarrow> int" where
  "spec_retryAfterSeconds now oldestRemaining =
     max 0 \<lceil>(60000 - (real_of_int now - real_of_int oldestRemaining)) / 1000\<rceil>"

section \<open>JavaScript values\<close>

text \<open>
  A parsed JSON value. Numbers are the mathematical values of the doubles JSON can denote
  (no NaN, no infinity); an object is its list of properties, read with \<open>map_of\<close>.
  A JavaScript expression that may be \<^verbatim>\<open>undefined\<close> is a \<open>json option\<close>.
\<close>

datatype json =
    JNull
  | JBool bool
  | JNum real
  | JStr string
  | JArr "json list"
  | JObj "(string \<times> json) list"

text \<open>Truthiness of a value, as tested by \<^verbatim>\<open>if (x)\<close>, \<^verbatim>\<open>!x\<close> and \<^verbatim>\<open>x || y\<close>.\<close>

fun truthy :: "json \<Rightarrow> bool" where
  "truthy JNull = False"
| "truthy (JBool b) = b"
| "truthy (JNum x) = (x \<noteq> 0)"
| "truthy (JStr s) = (s \<noteq> [])"
| "truthy (JArr _) = True"
| "truthy (JObj _) = True"



text \<open>
  \<^verbatim>\<open>r.key\<close> for a value \<open>r\<close> other than \<^verbatim>\<open>null\<close>: the property of an object, and
  \<^verbatim>\<open>undefined\<close> for the field names read in this program on any other value.
\<close>

definition get_prop :: "json \<Rightarrow> string \<Rightarrow> json option" where
  "get_prop r key = (case r of JObj kvs \<Rightarrow> map_of kvs key | _ \<Rightarrow> None)"

text \<open>A thrown value: an \<^verbatim>\<open>Error\<close> with its message and stack, or anything else.\<close>

datatype thrown = ErrorObj string "string option" | OtherThrown

text \<open>\<^verbatim>\<open>String(n)\<close> for an integer \<open>n\<close>: its decimal digits.\<close>

definition digit_char :: "nat \<Rightarrow> char" where
  "digit_char d = ''0123456789'' ! d"

fun nat_digits :: "nat \<Rightarrow> string" where
  "nat_digits n =
     (if n < 10 then [digit_char n] else nat_digits (n div 10) @ [digit_char (n mod 10)])"

declare nat_digits.simps [simp del]

definition js_String :: "int \<Rightarrow> string" where
  "js_String n = (if n < 0 then ''-'' @ nat_digits (nat (- n)) else nat_digits (nat n))"

section \<open>HTTP responses\<close>

text \<open>
  \<^verbatim>\<open>NextResponse.json(body, { status, headers })\<close>: the status (200 when not given), the
  headers the route sets itself, and the body. A property whose value is
  \<^verbatim>\<open>undefined\<close> is absent from the body.
\<close>

record http_response =
  status :: nat
  headers :: "(string \<times> string) list"
  body :: json

section \<open>Schemas (lib/types.ts)\<close>

text \<open>
  The zod 3 results the routes consume: \<^verbatim>\<open>safeParse\<close> returns either the parsed data or
  the list of all issues found, each with the path of the offending value and its message.
  Messages not given in the schema are zod's defaults.
\<close>

datatype path_elem = Key string | Index nat

datatype issue = Issue (ipath: "path_elem list") (imessage: string)

definition parsedType :: "json option \<Rightarrow> string" where
  "parsedType v =
     (case v of
        None \<Rightarrow> ''undefined''
      | Some JNull \<Rightarrow> ''null''
      | Some (JBool _) \<Rightarrow> ''boolean''
      | Some (JNum _) \<Rightarrow> ''number''
      | Some (JStr _) \<Rightarrow> ''string''
      | Some (JArr _) \<Rightarrow> ''array''
      | Some (JObj _) \<Rightarrow> ''object'')"

definition invalid_type :: "path_elem list \<Rightarrow> string \<Rightarrow> json option \<Rightarrow> issue" where
  "invalid_type p expected v =
     Issue p (if v = None then ''Required''
              else ''Expected '' @ expected @ '', received '' @ parsedType v)"

definition errs :: "issue list + 'a \<Rightarrow> issue list" where
  "errs r = (case r of Inl is \<Rightarrow> is | Inr _ \<Rightarrow> [])"

text \<open>
  \<^verbatim>\<open>rating: z.number().min(1, 'Rating must be at least 1').max(5, 'Rating must be at most 5')\<close>
\<close>

definition parse_rating :: "json option \<Rightarrow> issue list + real" where
  "parse_rating v =
     (case v of
        Some (JNum x) \<Rightarrow>
          (let is = (if x < 1 then [Issue [Key ''rating''] ''Rating must be at least 1''] else [])
                  @ (if 5 < x then [Issue [Key ''rating''] ''Rating must be at most 5''] else [])
           in if is = [] then Inr x else Inl is)
      | _ \<Rightarrow> Inl [invalid_type [Key ''rating''] ''number'' v])"

text \<open>
  \<^verbatim>\<open>review: z.string().min(5, 'Review must be at least 5 characters')
                   .max(1000, 'Review must be at most 1000 characters')\<close>;
  the length is the string's \<^verbatim>\<open>length\<close>.
\<close>

definition parse_review :: "json option \<Rightarrow> issue list + string" where
  "parse_review v =
     (case v of
        Some (JStr s) \<Rightarrow>
          (let is = (if length s < 5
                     then [Issue [Key ''review''] ''Review must be at least 5 characters'']
                     else [])
                  @ (if 1000 < length s
                     then [Issue [Key ''review''] ''Review must be at most 1000 characters'']
                     else [])
           in if is = [] then Inr s else Inl is)
      | _ \<Rightarrow> Inl [invalid_type [Key ''review''] ''string'' v])"

text \<open>
  \<^verbatim>\<open>ReviewFormSchema.safeParse(body)\<close>. The parsed data is the pair
  \<^verbatim>\<open>{ rating, review }\<close>; unknown properties are dropped.
\<close>

type_synonym ReviewFormData = "real \<times> string"

definition ReviewFormSchema_safeParse :: "json \<Rightarrow> issue list + ReviewFormData" where
  "ReviewFormSchema_safeParse b =
     (case b of
        JObj kvs \<Rightarrow>
          (case (parse_rating (map_of kvs ''rating''), parse_review (map_of kvs ''review'')) of
             (Inr x, Inr s) \<Rightarrow> Inr (x, s)
           | (r1, r2) \<Rightarrow> Inl (errs r1 @ errs r2))
      | _ \<Rightarrow> Inl [invalid_type [] ''object'' (Some b)])"

text \<open>\<^verbatim>\<open>AllowedTagSchema = z.enum([...])\<close>\<close>

definition AllowedTags :: "string list" where
  "AllowedTags = [''Quality'', ''Price'', ''Service'', ''Delivery'', ''App Experience'']"

definition quoted :: "string \<Rightarrow> string" where
  "quoted s = [CHR 0x27] @ s @ [CHR 0x27]"

fun joinValues :: "string list \<Rightarrow> string" where
  "joinValues [] = []"
| "joinValues [v] = quoted v"
| "joinValues (v # vs) = quoted v @ '' | '' @ joinValues vs"

definition parse_tag :: "path_elem list \<Rightarrow> json \<Rightarrow> issue list + string" where
  "parse_tag p v =
     (case v of
        JStr s \<Rightarrow>
          (if s \<in> set AllowedTags then Inr s
           else Inl [Issue p (''Invalid enum value. Expected '' @ joinValues AllowedTags
                              @ '', received '' @ quoted s)])
      | _ \<Rightarrow> Inl [invalid_type p (joinValues AllowedTags) (Some v)])"

text \<open>\<^verbatim>\<open>z.string().min(1)\<close> under the property \<open>key\<close>\<close>

definition parse_nonempty :: "string \<Rightarrow> json option \<Rightarrow> issue list + string" where
  "parse_nonempty key v =
     (case v of
        Some (JStr s) \<Rightarrow>
          (if length s < 1
           then Inl [Issue [Key key] ''String must contain at least 1 character(s)'']
           else Inr s)
      | _ \<Rightarrow> Inl [invalid_type [Key key] ''string'' v])"

text \<open>\<^verbatim>\<open>sentiment_score: z.number().min(0).max(100)\<close>\<close>

definition parse_sentiment_score :: "json option \<Rightarrow> issue list + real" where
  "parse_sentiment_score v =
     (case v of
        Some (JNum x) \<Rightarrow>
          (let is = (if x < 0
                     then [Issue [Key ''sentiment_score'']
                             ''Number must be greater than or equal to 0'']
                     else [])
                  @ (if 100 < x
                     then [Issue [Key ''sentiment_score'']
                             ''Number must be less than or equal to 100'']
                     else [])
           in if is = [] then Inr x else Inl is)
      | _ \<Rightarrow> Inl [invalid_type [Key ''sentiment_score''] ''number'' v])"

text \<open>
  \<^verbatim>\<open>tags: z.array(AllowedTagSchema).default([])\<close>: an absent property parses to the empty
  array; a present one must be an array, each element of which is checked at its index.
  The schema puts no bound on the number of elements.
\<close>

definition parse_tags :: "json option \<Rightarrow> issue list + string list" where
  "parse_tags v =
     (case v of
        None \<Rightarrow> Inr []
      | Some (JArr xs) \<Rightarrow>
          (let rs = map (\<lambda>(i, x). parse_tag [Key ''tags'', Index i] x) (enumerate 0 xs);
               is = concat (map errs rs)
           in if is = [] then Inr (concat (map (\<lambda>r. case r of Inr s \<Rightarrow> [s] | Inl _ \<Rightarrow> []) rs))
              else Inl is)
      | _ \<Rightarrow> Inl [invalid_type [Key ''tags''] ''array'' v])"

record AIResponse =
  response :: string
  summary :: string
  action :: string
  sentiment_score :: real
  tags :: "string list"

text \<open>\<^verbatim>\<open>AIResponseSchema.safeParse(aiJson)\<close>\<close>

definition AIResponseSchema_safeParse :: "json \<Rightarrow> issue list + AIResponse" where
  "AIResponseSchema_safeParse j =
     (case j of
        JObj kvs \<Rightarrow>
          (case (parse_nonempty ''response'' (map_of kvs ''response''),
                 parse_nonempty ''summary'' (map_of kvs ''summary''),
                 parse_nonempty ''action'' (map_of kvs ''action''),
                 parse_sentiment_score (map_of kvs ''sentiment_score''),
                 parse_tags (map_of kvs ''tags'')) of
             (Inr r, Inr s, Inr a, Inr sc, Inr ts) \<Rightarrow>
               Inr \<lparr>response = r, summary = s, action = a, sentiment_score = sc, tags = ts\<rparr>
           | (r1, r2, r3, r4, r5) \<Rightarrow> Inl (errs r1 @ errs r2 @ errs r3 @ errs r4 @ errs r5))
      | _ \<Rightarrow> Inl [invalid_type [] ''object'' (Some j)])"

text \<open>
  \<^verbatim>\<open>error.flatten()\<close>: the messages of the issues at the root, and for every other issue
  its message under the first element of its path, in order of appearance.
\<close>

record flattened =
  formErrors :: "string list"
  fieldErrors :: "(string \<times> string list) list"

definition path_key :: "path_elem \<Rightarrow> string" where
  "path_key e = (case e of Key k \<Rightarrow> k | Index i \<Rightarrow> js_String (int i))"

fun add_field_error ::
  "string \<Rightarrow> string \<Rightarrow> (string \<times> string list) list \<Rightarrow> (string \<times> string list) list" where
  "add_field_error k m [] = [(k, [m])]"
| "add_field_error k m ((k', ms) # rest) =
     (if k' = k then (k', ms @ [m]) # rest else (k', ms) # add_field_error k m rest)"

definition flatten_step :: "flattened \<Rightarrow> issue \<Rightarrow> flattened" where
  "flatten_step f i =
     (case ipath i of
        [] \<Rightarrow> f\<lparr>formErrors := formErrors f @ [imessage i]\<rparr>
      | e # _ \<Rightarrow> f\<lparr>fieldErrors := add_field_error (path_key e) (imessage i) (fieldErrors f)\<rparr>)"

definition flatten :: "issue list \<Rightarrow> flattened" where
  "flatten is = foldl flatten_step \<lparr>formErrors = [], fieldErrors = []\<rparr> is"

definition flattened_json :: "flattened \<Rightarrow> json" where
  "flattened_json f =
     JObj [(''formErrors'', JArr (map JStr (formErrors f))),
           (''fieldErrors'', JObj (map (\<lambda>(k, ms). (k, JArr (map JStr ms))) (fieldErrors f)))]"

text \<open>The stored review document (\<^verbatim>\<open>interface ReviewDocument\<close>), without the store's id.\<close>

record ReviewDocument =
  rating :: real
  reviewText :: string
  ai_response :: string
  ai_summary :: string
  ai_action :: string
  ai_sentiment :: int
  ai_tags :: "string list"
  latency_ms :: int
  createdAt :: int

section \<open>The review route (app/api/review/route.ts, POST)\<close>

text \<open>
  What the route sends to the model: the values interpolated into the prompt. The review
  route sends the rating and the review text; the report route sends the number of
  reviews and the serialised list.
\<close>

datatype ai_call = Analyze real string | Summarize nat json

text \<open>What the routes write with \<^verbatim>\<open>console.error\<close>.\<close>

datatype log_entry =
    LogParseFailed string
  | LogInvalidStructure flattened
  | LogError thrown
  | LogReportError

text \<open>
  Everything one request reads from outside the function: the clock
  (\<^verbatim>\<open>Date.now()\<close> in \<^verbatim>\<open>isRateLimited\<close>), the request body
  (\<^verbatim>\<open>await request.json()\<close>, which throws on a body that is not JSON), the two readings
  of \<^verbatim>\<open>performance.now()\<close>, the model (\<^verbatim>\<open>generateContent\<close> throws or returns a
  response whose \<^verbatim>\<open>text\<close> may be undefined), the clock at the time the document is
  built, and the database (\<^verbatim>\<open>getAdminDatabase()\<close> and \<^verbatim>\<open>push\<close>: either may throw).
\<close>

record env =
  clock_now :: int
  request_json :: "thrown + json"
  perf_start :: real
  perf_end :: real
  generateContent :: "ai_call \<Rightarrow> thrown + string option"
  created_now :: int
  db_push :: "ReviewDocument \<Rightarrow> thrown option"

text \<open>
  What one request leaves behind: the response, the rate-limit store, the calls made to
  the model, the documents pushed to the database, and the log lines.
\<close>

record outcome =
  http :: http_response
  rl_store :: rate_store
  ai_calls :: "ai_call list"
  pushed :: "ReviewDocument list"
  logs :: "log_entry list"

text \<open>The response of the \<^verbatim>\<open>catch\<close> block (lines 201-213).\<close>

definition caught :: "thrown \<Rightarrow> http_response" where
  "caught e =
     \<lparr>status = 500, headers = [],
      body = JObj ([(''success'', JBool False),
                    (''error'', JStr ''Internal server error''),
                    (''details'', JStr (case e of ErrorObj m _ \<Rightarrow> m
                                        | OtherThrown \<Rightarrow> ''Unknown error''))]
                   @ (case e of ErrorObj _ (Some st) \<Rightarrow> [(''stack'', JStr st)] | _ \<Rightarrow> []))\<rparr>"

text \<open>The response to a rate-limited request (lines 53-67).\<close>

definition rate_limited_response :: "rl_result \<Rightarrow> http_response" where
  "rate_limited_response rl =
     \<lparr>status = 429,
      headers = [(''Retry-After'', js_String (retryAfterSec rl))],
      body = JObj [(''success'', JBool False),
                   (''error'', JStr ''Rate limit exceeded. Please try again shortly.''),
                   (''retryAfterSec'', JNum (of_int (retryAfterSec rl)))]\<rparr>"

text \<open>The response to a body that fails \<^verbatim>\<open>ReviewFormSchema\<close> (lines 73-82).\<close>

definition invalid_input_response :: "issue list \<Rightarrow> http_response" where
  "invalid_input_response issues =
     \<lparr>status = 400, headers = [],
      body = JObj [(''success'', JBool False),
                   (''error'', JStr ''Invalid input''),
                   (''details'', flattened_json (flatten issues))]\<rparr>"

text \<open>
  Lines 141-152: \<^verbatim>\<open>aiJson\<close> stays undefined when the text is undefined or empty, or when
  \<^verbatim>\<open>JSON.parse\<close> throws; only the last case is logged, with the text.
  \<^verbatim>\<open>JSON.parse\<close> is the parameter \<open>JSON_parse\<close>, \<open>None\<close> where it throws.
\<close>

definition parse_ai_text ::
  "(string \<Rightarrow> json option) \<Rightarrow> string option \<Rightarrow> json option \<times> log_entry list" where
  "parse_ai_text JSON_parse text =
     (case text of
        None \<Rightarrow> (None, [])
      | Some t \<Rightarrow>
          if t = [] then (None, [])
          else (case JSON_parse t of
                  None \<Rightarrow> (None, [LogParseFailed t])
                | Some j \<Rightarrow> (Some j, [])))"

text \<open>The response when \<^verbatim>\<open>!aiJson\<close> (lines 154-163).\<close>

definition parsing_failed_response :: http_response where
  "parsing_failed_response =
     \<lparr>status = 500, headers = [],
      body = JObj [(''success'', JBool False),
                   (''error'', JStr ''AI response parsing failed''),
                   (''details'', JStr ''No parsed content or valid text returned'')]\<rparr>"

text \<open>The response when the parsed value fails \<^verbatim>\<open>AIResponseSchema\<close> (lines 166-175).\<close>

definition invalid_structure_response :: http_response where
  "invalid_structure_response =
     \<lparr>status = 500, headers = [],
      body = JObj [(''success'', JBool False),
                   (''error'', JStr ''Invalid AI response structure'')]\<rparr>"

text \<open>The document built at lines 179-189.\<close>

definition reviewData :: "real \<Rightarrow> string \<Rightarrow> AIResponse \<Rightarrow> int \<Rightarrow> int \<Rightarrow> ReviewDocument" where
  "reviewData rating_v review_v aiData latencyMs created =
     \<lparr>rating = rating_v,
      reviewText = review_v,
      ai_response = response aiData,
      ai_summary = summary aiData,
      ai_action = action aiData,
      ai_sentiment = round (sentiment_score aiData),
      ai_tags = tags aiData,
      latency_ms = latencyMs,
      createdAt = created\<rparr>"

text \<open>The success response (lines 196-199).\<close>

definition success_response :: "AIResponse \<Rightarrow> http_response" where
  "success_response aiData =
     \<lparr>status = 200, headers = [],
      body = JObj [(''success'', JBool True), (''message'', JStr (response aiData))]\<rparr>"

text \<open>
  Lines 138-199, after the model has answered with \<open>text\<close>: parse the text, check the
  parsed value, build the document, push it and answer.
\<close>

definition after_generateContent ::
  "(string \<Rightarrow> json option) \<Rightarrow> env \<Rightarrow> rate_store \<Rightarrow> real \<Rightarrow> string \<Rightarrow> string option \<Rightarrow> outcome" where
  "after_generateContent JSON_parse e store' rating_v review_v text =
     (let call = Analyze rating_v review_v;
          latencyMs = max 0 (round (perf_end e - perf_start e))
      in case parse_ai_text JSON_parse text of
           (aiJson, plogs) \<Rightarrow>
             (case aiJson of
                None \<Rightarrow>
                  \<lparr>http = parsing_failed_response, rl_store = store',
                   ai_calls = [call], pushed = [], logs = plogs\<rparr>
              | Some j \<Rightarrow>
                  if \<not> truthy j then
                    \<lparr>http = parsing_failed_response, rl_store = store',
                     ai_calls = [call], pushed = [], logs = plogs\<rparr>
                  else
                    (case AIResponseSchema_safeParse j of
                       Inl issues \<Rightarrow>
                         \<lparr>http = invalid_structure_response, rl_store = store',
                          ai_calls = [call], pushed = [],
                          logs = plogs @ [LogInvalidStructure (flatten issues)]\<rparr>
                     | Inr aiData \<Rightarrow>
                         (let doc = reviewData rating_v review_v aiData latencyMs (created_now e)
                          in case db_push e doc of
                               Some ex \<Rightarrow>
                                 \<lparr>http = caught ex, rl_store = store',
                                  ai_calls = [call], pushed = [],
                                  logs = plogs @ [LogError ex]\<rparr>
                             | None \<Rightarrow>
                                 \<lparr>http = success_response aiData, rl_store = store',
                                  ai_calls = [call], pushed = [doc], logs = plogs\<rparr>))))"

text \<open>
  Lines 69-136, for a request the rate limiter has admitted: read and validate the body,
  then call the model.
\<close>

definition after_admission ::
  "(string \<Rightarrow> json option) \<Rightarrow> env \<Rightarrow> rate_store \<Rightarrow> outcome" where
  "after_admission JSON_parse e store' =
     (case request_json e of
        Inl ex \<Rightarrow>
          \<lparr>http = caught ex, rl_store = store',
           ai_calls = [], pushed = [], logs = [LogError ex]\<rparr>
      | Inr b \<Rightarrow>
          (case ReviewFormSchema_safeParse b of
             Inl issues \<Rightarrow>
               \<lparr>http = invalid_input_response issues, rl_store = store',
                ai_calls = [], pushed = [], logs = []\<rparr>
           | Inr (rating_v, review_v) \<Rightarrow>
               (case generateContent e (Analyze rating_v review_v) of
                  Inl ex \<Rightarrow>
                    \<lparr>http = caught ex, rl_store = store',
                     ai_calls = [Analyze rating_v review_v], pushed = [],
                     logs = [LogError ex]\<rparr>
                | Inr text \<Rightarrow>
                    after_generateContent JSON_parse e store' rating_v review_v text)))"

text \<open>
  \<^verbatim>\<open>POST(request)\<close> for the client id \<open>ip\<close> that \<^verbatim>\<open>getClientIp(request)\<close> returned.
  The steps are in the order of the source; an exception thrown by the body reader, the
  model or the database ends in the \<^verbatim>\<open>catch\<close> block, after the rate limiter has already
  recorded the request.
\<close>

definition POST :: "(string \<Rightarrow> json option) \<Rightarrow> env \<Rightarrow> rate_store \<Rightarrow> string \<Rightarrow> outcome" where
  "POST JSON_parse e store ip =
     (case isRateLimited store ip (clock_now e) of
        (rl, store') \<Rightarrow>
          if limited rl then
            \<lparr>http = rate_limited_response rl, rl_store = store',
             ai_calls = [], pushed = [], logs = []\<rparr>
          else after_admission JSON_parse e store')"

section \<open>The report route (generate-report, POST)\<close>



text \<open>\<^verbatim>\<open>limitToLast(n)\<close>: the last \<open>n\<close> children in key order.\<close>

definition limitToLast :: "nat \<Rightarrow> 'a list \<Rightarrow> 'a list" where
  "limitToLast n xs = drop (length xs - n) xs"

definition opt_prop :: "string \<Rightarrow> json option \<Rightarrow> (string \<times> json) list" where
  "opt_prop key v = (case v of None \<Rightarrow> [] | Some j \<Rightarrow> [(key, j)])"






section \<open>Predicates and inputs used in the statements\<close>

text \<open>
  The two range conditions on the properties \<open>kvs\<close> of a request body: \<open>rating\<close> is a
  number from 1 to 5, \<open>review\<close> is a string of 5 to 1000 characters.
\<close>

definition rating_in_range :: "(string \<times> json) list \<Rightarrow> bool" where
  "rating_in_range kvs \<longleftrightarrow> (\<exists>x. map_of kvs ''rating'' = Some (JNum x) \<and> 1 \<le> x \<and> x \<le> 5)"

definition review_in_range :: "(string \<times> json) list \<Rightarrow> bool" where
  "review_in_range kvs \<longleftrightarrow>
     (\<exists>s. map_of kvs ''review'' = Some (JStr s) \<and> 5 \<le> length s \<and> length s \<le> 1000)"

text \<open>
  A request for the examples: the body reader, the model and the database answer with the
  three given outcomes, whatever they are asked; the model takes 421.25 ms.
\<close>

definition example_env :: "thrown + json \<Rightarrow> thrown + string option \<Rightarrow> thrown option \<Rightarrow> env" where
  "example_env body_outcome ai_outcome db_outcome =
     \<lparr>clock_now = 1700000000000,
      request_json = body_outcome,
      perf_start = 10.25,
      perf_end = 431.5,
      generateContent = (\<lambda>_. ai_outcome),
      created_now = 1700000000421,
      db_push = (\<lambda>_. db_outcome)\<rparr>"

definition example_body :: json where
  "example_body = JObj [(''rating'', JNum 5), (''review'', JStr ''Great service, very happy!'')]"

text \<open>
  A reply of the model with the given score and the given \<open>tags\<close> property (absent when
  \<open>None\<close>), and a \<^verbatim>\<open>JSON.parse\<close> that reads the text \<open>t\<close> as the value \<open>j\<close> and throws on
  every other text.
\<close>

definition example_reply :: "real \<Rightarrow> json option \<Rightarrow> json" where
  "example_reply score tags_prop =
     JObj ([(''response'', JStr ''Thanks!''),
            (''summary'', JStr ''Happy customer''),
            (''action'', JStr ''None needed''),
            (''sentiment_score'', JNum score)] @ opt_prop ''tags'' tags_prop)"

text \<open>The text of such a reply, with the score and the tags property as written.\<close>

definition example_reply_text :: "string \<Rightarrow> string \<Rightarrow> string" where
  "example_reply_text score tags_part =
     ''{\"response\":\"Thanks!\",\"summary\":\"Happy customer\",\"action\":\"None needed\",\"sentiment_score\":''
     @ score @ tags_part @ ''}''"

definition parses_as :: "string \<Rightarrow> json \<Rightarrow> string \<Rightarrow> json option" where
  "parses_as t j = (\<lambda>t'. if t' = t then Some j else None)"



text \<open>
  For the rate limiter: five calls of one client, a second apart, and a request whose
  clock reads \<open>now\<close>.
\<close>

definition example_calls :: "(string \<times> int) list" where
  "example_calls = [(''10.0.0.1'', 0), (''10.0.0.1'', 1000), (''10.0.0.1'', 2000),
                    (''10.0.0.1'', 3000), (''10.0.0.1'', 4000)]"

definition example_clock :: "int \<Rightarrow> env" where
  "example_clock now =
     \<lparr>clock_now = now, request_json = Inr example_body, perf_start = 10.25, perf_end = 431.5,
      generateContent = (\<lambda>_. Inr None), created_now = now + 421, db_push = (\<lambda>_. None)\<rparr>"








section \<open>Properties of the rate limiter\<close>

lemma ceil_sec_div: "ceil_sec ms = - ((- ms) div 1000)"
proof -
  have "real_of_int ms / 1000 = real_of_int ms / real_of_int 1000" by simp
  then show ?thesis
    unfolding ceil_sec_def by (simp only: ceiling_divide_eq_div)
qed

lemma ceil_sec_pos: "0 < ms \<Longrightarrow> 0 < ceil_sec ms"
  unfolding ceil_sec_div by linarith

lemma isRateLimited_limited:
  "limited (fst (isRateLimited store ip now)) \<longleftrightarrow> RATE_LIMIT_MAX \<le> length (fresh store ip now)"
  by (simp add: isRateLimited_def Let_def)

lemma isRateLimited_denied_store:
  "RATE_LIMIT_MAX \<le> length (fresh store ip now) \<Longrightarrow> snd (isRateLimited store ip now) = store"
  by (simp add: isRateLimited_def Let_def)

lemma isRateLimited_allowed_store:
  "length (fresh store ip now) < RATE_LIMIT_MAX \<Longrightarrow>
     snd (isRateLimited store ip now) = store(ip \<mapsto> fresh store ip now @ [now])"
  by (simp add: isRateLimited_def Let_def)

lemma isRateLimited_other:
  "ip' \<noteq> ip \<Longrightarrow> snd (isRateLimited store ip now) ip' = store ip'"
  by (simp add: isRateLimited_def Let_def)

lemma history_upd_same: "history (store(ip \<mapsto> h)) ip = h"
  by (simp add: history_def)

lemma history_upd_other: "ip' \<noteq> ip \<Longrightarrow> history (store(ip \<mapsto> h)) ip' = history store ip'"
  by (simp add: history_def)

lemma fresh_all:
  "\<forall>t\<in>set (history store ip). now - t < RATE_LIMIT_WINDOW_MS \<Longrightarrow> fresh store ip now = history store ip"
  by (simp add: fresh_def)

lemma fresh_none:
  "\<forall>t\<in>set (history store ip). RATE_LIMIT_WINDOW_MS \<le> now - t \<Longrightarrow> fresh store ip now = []"
  by (auto simp: fresh_def filter_empty_conv)

lemma isRateLimited_allowed:
  "length (fresh store ip now) < RATE_LIMIT_MAX \<Longrightarrow>
     isRateLimited store ip now =
       (\<lparr>limited = False, retryAfterSec = 0\<rparr>, store(ip \<mapsto> fresh store ip now @ [now]))"
  by (simp add: isRateLimited_def Let_def)

lemma isRateLimited_denied:
  "RATE_LIMIT_MAX \<le> length (fresh store ip now) \<Longrightarrow>
     isRateLimited store ip now =
       (\<lparr>limited = True,
         retryAfterSec = ceil_sec (max 0 (RATE_LIMIT_WINDOW_MS - (now - hd (fresh store ip now))))\<rparr>,
        store)"
  by (cases "fresh store ip now") (simp_all add: isRateLimited_def Let_def RATE_LIMIT_MAX_def)

lemma denied_retry_pos:
  assumes "RATE_LIMIT_MAX \<le> length (fresh store ip now)"
  shows "0 < retryAfterSec (fst (isRateLimited store ip now))"
proof -
  from assms have ne: "fresh store ip now \<noteq> []" by (auto simp: RATE_LIMIT_MAX_def)
  then have "hd (fresh store ip now) \<in> set (fresh store ip now)" by simp
  then have "now - hd (fresh store ip now) < RATE_LIMIT_WINDOW_MS"
    unfolding fresh_def by simp
  then have "0 < max 0 (RATE_LIMIT_WINDOW_MS - (now - hd (fresh store ip now)))" by simp
  then show ?thesis
    using assms by (simp add: isRateLimited_denied ceil_sec_pos)
qed

lemma admissions_Cons:
  "admissions store ((ip, now) # calls) =
     (fst (isRateLimited store ip now) # fst (admissions (snd (isRateLimited store ip now)) calls),
      snd (admissions (snd (isRateLimited store ip now)) calls))"
  by (simp add: case_prod_beta)

text \<open>
  One client calling at the times \<open>ts\<close>, all of them in the window of every timestamp
  already stored for it and of one another: the calls are admitted until the stored list
  has \<open>RATE_LIMIT_MAX\<close> entries and denied, with a positive wait, from then on.
\<close>

lemma run_within:
  assumes "\<forall>t\<in>set (history store ip). \<forall>n\<in>set ts. n - t < RATE_LIMIT_WINDOW_MS"
    and "\<forall>a\<in>set ts. \<forall>b\<in>set ts. a - b < RATE_LIMIT_WINDOW_MS"
  shows "length (fst (admissions store (map (Pair ip) ts))) = length ts
       \<and> (\<forall>k<length ts.
            (length (history store ip) + k < RATE_LIMIT_MAX \<longrightarrow>
               fst (admissions store (map (Pair ip) ts)) ! k = \<lparr>limited = False, retryAfterSec = 0\<rparr>)
          \<and> (RATE_LIMIT_MAX \<le> length (history store ip) + k \<longrightarrow>
               limited (fst (admissions store (map (Pair ip) ts)) ! k)
               \<and> 0 < retryAfterSec (fst (admissions store (map (Pair ip) ts)) ! k)))
       \<and> history (snd (admissions store (map (Pair ip) ts))) ip
           = history store ip @ take (RATE_LIMIT_MAX - length (history store ip)) ts"
  using assms
proof (induction ts arbitrary: store)
  case Nil
  then show ?case by simp
next
  case (Cons n ts)
  have fr: "fresh store ip n = history store ip"
    using Cons.prems(1) by (simp add: fresh_all)
  show ?case
  proof (cases "RATE_LIMIT_MAX \<le> length (history store ip)")
    case True
    then have den: "RATE_LIMIT_MAX \<le> length (fresh store ip n)" using fr by simp
    have step: "snd (isRateLimited store ip n) = store"
      using den by (rule isRateLimited_denied_store)
    have ih: "length (fst (admissions store (map (Pair ip) ts))) = length ts
       \<and> (\<forall>k<length ts.
            (length (history store ip) + k < RATE_LIMIT_MAX \<longrightarrow>
               fst (admissions store (map (Pair ip) ts)) ! k = \<lparr>limited = False, retryAfterSec = 0\<rparr>)
          \<and> (RATE_LIMIT_MAX \<le> length (history store ip) + k \<longrightarrow>
               limited (fst (admissions store (map (Pair ip) ts)) ! k)
               \<and> 0 < retryAfterSec (fst (admissions store (map (Pair ip) ts)) ! k)))
       \<and> history (snd (admissions store (map (Pair ip) ts))) ip
           = history store ip @ take (RATE_LIMIT_MAX - length (history store ip)) ts"
      using Cons.IH[of store] Cons.prems by simp
    have l0: "limited (fst (isRateLimited store ip n))" using den by (simp add: isRateLimited_limited)
    have r0: "0 < retryAfterSec (fst (isRateLimited store ip n))" using den by (rule denied_retry_pos)
    have adm: "admissions store (map (Pair ip) (n # ts)) =
        (fst (isRateLimited store ip n) # fst (admissions store (map (Pair ip) ts)),
         snd (admissions store (map (Pair ip) ts)))"
      using step by (simp add: admissions_Cons del: admissions.simps)
    show ?thesis
      unfolding adm using ih True l0 r0
      by (auto simp: nth_Cons split: nat.splits)
  next
    case False
    then have al: "length (fresh store ip n) < RATE_LIMIT_MAX" using fr by simp
    define s' where "s' = store(ip \<mapsto> history store ip @ [n])"
    have step: "isRateLimited store ip n = (\<lparr>limited = False, retryAfterSec = 0\<rparr>, s')"
      using isRateLimited_allowed[OF al] fr by (simp add: s'_def)
    have h': "history s' ip = history store ip @ [n]" by (simp add: s'_def history_upd_same)
    have p1: "\<forall>t\<in>set (history s' ip). \<forall>m\<in>set ts. m - t < RATE_LIMIT_WINDOW_MS"
      using Cons.prems unfolding h' by auto
    have p2: "\<forall>a\<in>set ts. \<forall>b\<in>set ts. a - b < RATE_LIMIT_WINDOW_MS"
      using Cons.prems(2) by simp
    note ih = Cons.IH[OF p1 p2, unfolded h']
    have adm: "admissions store (map (Pair ip) (n # ts)) =
        (\<lparr>limited = False, retryAfterSec = 0\<rparr> # fst (admissions s' (map (Pair ip) ts)),
         snd (admissions s' (map (Pair ip) ts)))"
      using step by (simp add: admissions_Cons del: admissions.simps)
    have tk: "take (RATE_LIMIT_MAX - length (history store ip)) (n # ts)
            = n # take (RATE_LIMIT_MAX - Suc (length (history store ip))) ts"
      using False by (simp add: take_Cons' )
    show ?thesis
      unfolding adm tk using ih False
      by (auto simp: nth_Cons split: nat.splits)
  qed
qed

text \<open>
  Claim C1. A client whose stored timestamps (if any) are all at least a window old makes
  the calls \<open>ts\<close>, any two of which are less than 60000 ms apart. The 1st to 5th call
  (\<open>k < 5\<close>, counting from 0) are admitted, every later one is denied with
  \<open>retryAfterSec > 0\<close>. A call made afterwards at a time \<open>now'\<close> with
  \<open>now' - oldest \<ge> 60000\<close>, where \<open>oldest\<close> is the first of these calls, is admitted
  again: equality is enough, a timestamp exactly 60000 ms old is stale.
\<close>

theorem C1_window_admission:
  assumes stale: "\<forall>t\<in>set (history store ip). \<forall>n\<in>set ts. RATE_LIMIT_WINDOW_MS \<le> n - t"
    and within: "\<forall>a\<in>set ts. \<forall>b\<in>set ts. a - b < RATE_LIMIT_WINDOW_MS"
    and k: "k < length ts"
    and elapsed: "RATE_LIMIT_WINDOW_MS \<le> now' - hd ts"
  shows "(k < 5 \<longrightarrow> fst (admissions store (map (Pair ip) ts)) ! k = \<lparr>limited = False, retryAfterSec = 0\<rparr>)
       \<and> (5 \<le> k \<longrightarrow> limited (fst (admissions store (map (Pair ip) ts)) ! k)
                     \<and> 0 < retryAfterSec (fst (admissions store (map (Pair ip) ts)) ! k))
       \<and> \<not> limited (fst (isRateLimited (snd (admissions store (map (Pair ip) ts))) ip now'))"
proof -
  from k obtain n ts' where ts: "ts = n # ts'" by (cases ts) auto
  define s1 where "s1 = store(ip \<mapsto> [n])"
  have fr0: "fresh store ip n = []"
    using stale by (simp add: fresh_none ts)
  then have step: "isRateLimited store ip n = (\<lparr>limited = False, retryAfterSec = 0\<rparr>, s1)"
    using isRateLimited_allowed[of store ip n] by (simp add: RATE_LIMIT_MAX_def s1_def)
  have h1: "history s1 ip = [n]" by (simp add: s1_def history_upd_same)
  have p1: "\<forall>t\<in>set (history s1 ip). \<forall>m\<in>set ts'. m - t < RATE_LIMIT_WINDOW_MS"
    using within by (simp add: h1 ts)
  have p2: "\<forall>a\<in>set ts'. \<forall>b\<in>set ts'. a - b < RATE_LIMIT_WINDOW_MS"
    using within by (simp add: ts)
  note rw = run_within[OF p1 p2, unfolded h1]
  have adm: "admissions store (map (Pair ip) ts) =
      (\<lparr>limited = False, retryAfterSec = 0\<rparr> # fst (admissions s1 (map (Pair ip) ts')),
       snd (admissions s1 (map (Pair ip) ts')))"
    using step by (simp add: ts admissions_Cons del: admissions.simps)
  have res: "(k < 5 \<longrightarrow> fst (admissions store (map (Pair ip) ts)) ! k = \<lparr>limited = False, retryAfterSec = 0\<rparr>)
       \<and> (5 \<le> k \<longrightarrow> limited (fst (admissions store (map (Pair ip) ts)) ! k)
                     \<and> 0 < retryAfterSec (fst (admissions store (map (Pair ip) ts)) ! k))"
  proof (cases k)
    case 0
    then show ?thesis by (simp add: adm)
  next
    case (Suc k')
    then have "k' < length ts'" using k ts by simp
    then show ?thesis
      using rw Suc by (simp add: adm RATE_LIMIT_MAX_def)
  qed
  have hfin: "history (snd (admissions store (map (Pair ip) ts))) ip = n # take 4 ts'"
    using rw by (simp add: adm RATE_LIMIT_MAX_def)
  have "fresh (snd (admissions store (map (Pair ip) ts))) ip now'
          = filter (\<lambda>t. now' - t < RATE_LIMIT_WINDOW_MS) (take 4 ts')"
    unfolding fresh_def hfin using elapsed by (simp add: ts)
  then have "length (fresh (snd (admissions store (map (Pair ip) ts))) ip now') \<le> 4"
    using length_filter_le[of "\<lambda>t. now' - t < RATE_LIMIT_WINDOW_MS" "take 4 ts'"] by simp
  then have "\<not> limited (fst (isRateLimited (snd (admissions store (map (Pair ip) ts))) ip now'))"
    by (simp add: isRateLimited_limited RATE_LIMIT_MAX_def)
  with res show ?thesis by blast
qed

theorem C1_window_admission_witness:
  "(5::nat) < length [0, 1000, 2000, 3000, 4000, 5000, 59999 :: int]
   \<and> RATE_LIMIT_WINDOW_MS \<le> 60000 - hd [0, 1000, 2000, 3000, 4000, 5000, 59999]
   \<and> limited (fst (admissions Map.empty
          (map (Pair ''203.0.113.7'') [0, 1000, 2000, 3000, 4000, 5000, 59999])) ! 5)
   \<and> 0 < retryAfterSec (fst (admissions Map.empty
          (map (Pair ''203.0.113.7'') [0, 1000, 2000, 3000, 4000, 5000, 59999])) ! 5)
   \<and> \<not> limited (fst (isRateLimited (snd (admissions Map.empty
          (map (Pair ''203.0.113.7'') [0, 1000, 2000, 3000, 4000, 5000, 59999]))) ''203.0.113.7'' 60000))"
proof -
  have h1: "\<forall>t\<in>set (history Map.empty ''203.0.113.7''). \<forall>n\<in>set [0, 1000, 2000, 3000, 4000, 5000, 59999].
       RATE_LIMIT_WINDOW_MS \<le> n - t"
    by (simp add: history_def)
  have h2: "\<forall>a\<in>set [0, 1000, 2000, 3000, 4000, 5000, 59999 :: int].
        \<forall>b\<in>set [0, 1000, 2000, 3000, 4000, 5000, 59999]. a - b < RATE_LIMIT_WINDOW_MS"
    by (simp add: RATE_LIMIT_WINDOW_MS_def)
  have h3: "(5::nat) < length [0, 1000, 2000, 3000, 4000, 5000, 59999 :: int]" by simp
  have h4: "RATE_LIMIT_WINDOW_MS \<le> 60000 - hd [0, 1000, 2000, 3000, 4000, 5000, 59999]"
    by (simp add: RATE_LIMIT_WINDOW_MS_def)
  show ?thesis
    using h1 h2 h3 h4 C1_window_admission[OF h1 h2 h3 h4] by simp
qed

text \<open>
  Claim C10. A denied call returns the store it was given: nothing is written, not even
  the pruned list. And a call for \<open>ip\<close>, admitted or denied, leaves the entry of every other
  client id as it was.
\<close>

theorem C10_frame:
  "(limited (fst (isRateLimited store ip now)) \<longrightarrow> snd (isRateLimited store ip now) = store)
   \<and> (\<forall>ip'. ip' \<noteq> ip \<longrightarrow> snd (isRateLimited store ip now) ip' = store ip')"
  by (simp add: isRateLimited_limited isRateLimited_denied_store isRateLimited_other)

theorem C10_frame_witness:
  "limited (fst (isRateLimited [''10.0.0.1'' \<mapsto> [0, 10, 20, 30, 40], ''10.0.0.2'' \<mapsto> [7]] ''10.0.0.1'' 50))
   \<and> snd (isRateLimited [''10.0.0.1'' \<mapsto> [0, 10, 20, 30, 40], ''10.0.0.2'' \<mapsto> [7]] ''10.0.0.1'' 50)
       = [''10.0.0.1'' \<mapsto> [0, 10, 20, 30, 40], ''10.0.0.2'' \<mapsto> [7]]
   \<and> ''10.0.0.2'' \<noteq> ''10.0.0.1''
   \<and> snd (isRateLimited [''10.0.0.1'' \<mapsto> [0, 10, 20, 30, 40], ''10.0.0.2'' \<mapsto> [7]] ''10.0.0.1'' 50) ''10.0.0.2''
       = Some [7]"
proof -
  have l: "limited (fst (isRateLimited [''10.0.0.1'' \<mapsto> [0, 10, 20, 30, 40], ''10.0.0.2'' \<mapsto> [7]] ''10.0.0.1'' 50))"
    by (simp add: isRateLimited_limited fresh_def history_def RATE_LIMIT_MAX_def RATE_LIMIT_WINDOW_MS_def)
  have n: "''10.0.0.2'' \<noteq> ''10.0.0.1''" by simp
  show ?thesis
    using l n C10_frame[of "[''10.0.0.1'' \<mapsto> [0, 10, 20, 30, 40], ''10.0.0.2'' \<mapsto> [7]]" "''10.0.0.1''" 50]
    by simp
qed

lemma ceil_sec_max: "ceil_sec (max 0 x) = max 0 \<lceil>real_of_int x / 1000\<rceil>"
proof (cases "0 < x")
  case True
  then have "0 < ceil_sec x" by (rule ceil_sec_pos)
  then show ?thesis using True by (simp add: ceil_sec_def max_def)
next
  case False
  then have "real_of_int x / 1000 \<le> 0" by simp
  then have c: "\<lceil>real_of_int x / 1000\<rceil> \<le> 0" by simp
  have m: "max 0 x = 0" using False by simp
  have "ceil_sec (max 0 x) = 0" unfolding m by (simp add: ceil_sec_def)
  moreover have "max 0 \<lceil>real_of_int x / 1000\<rceil> = 0" using c by linarith
  ultimately show ?thesis by simp
qed

lemma POST_denied:
  "limited (fst (isRateLimited store ip (clock_now e))) \<Longrightarrow>
     POST JSON_parse e store ip =
       \<lparr>http = rate_limited_response (fst (isRateLimited store ip (clock_now e))),
        rl_store = store, ai_calls = [], pushed = [], logs = []\<rparr>"
  by (simp add: POST_def case_prod_beta isRateLimited_limited isRateLimited_denied_store)

lemma POST_admitted:
  "\<not> limited (fst (isRateLimited store ip (clock_now e))) \<Longrightarrow>
     POST JSON_parse e store ip =
       after_admission JSON_parse e (snd (isRateLimited store ip (clock_now e)))"
  by (simp add: POST_def case_prod_beta)

lemma admissions_snd_append:
  "snd (admissions store (xs @ ys)) = snd (admissions (snd (admissions store xs)) ys)"
proof (induction xs arbitrary: store)
  case Nil
  then show ?case by simp
next
  case (Cons c xs)
  obtain ip n where c: "c = (ip, n)" by (cases c)
  show ?case
    unfolding c append_Cons admissions_Cons snd_conv by (rule Cons.IH)
qed

lemma admissions_snd_snoc:
  "snd (admissions store (xs @ [(ip, n)])) = snd (isRateLimited (snd (admissions store xs)) ip n)"
  by (simp add: admissions_snd_append case_prod_beta)

lemma step_history:
  "history (snd (isRateLimited store ip n)) ip' =
     (if ip' = ip \<and> length (fresh store ip n) < RATE_LIMIT_MAX then fresh store ip n @ [n]
      else history store ip')"
proof (cases "length (fresh store ip n) < RATE_LIMIT_MAX")
  case True
  then show ?thesis
    by (simp add: isRateLimited_allowed_store history_def)
next
  case False
  then have "RATE_LIMIT_MAX \<le> length (fresh store ip n)" by simp
  then show ?thesis by (simp add: isRateLimited_denied_store)
qed

lemma step_length:
  assumes "length (history store ip') \<le> RATE_LIMIT_MAX"
  shows "length (history (snd (isRateLimited store ip n)) ip') \<le> RATE_LIMIT_MAX"
  using assms by (simp add: step_history)

lemma fresh_subset: "set (fresh store ip n) \<subseteq> set (history store ip)"
  by (auto simp: fresh_def)

lemma fresh_in_window: "t \<in> set (fresh store ip n) \<Longrightarrow> n - t < RATE_LIMIT_WINDOW_MS"
  by (simp add: fresh_def)

lemma step_window:
  assumes len: "length (history store ip) \<le> RATE_LIMIT_MAX"
    and t: "t \<in> set (history (snd (isRateLimited store ip n)) ip)"
  shows "n - t < RATE_LIMIT_WINDOW_MS"
proof (cases "length (fresh store ip n) < RATE_LIMIT_MAX")
  case True
  then have "t \<in> set (fresh store ip n) \<or> t = n"
    using t by (auto simp: step_history)
  then show ?thesis
  proof
    assume "t \<in> set (fresh store ip n)"
    then show ?thesis by (rule fresh_in_window)
  next
    assume "t = n"
    then show ?thesis by (simp add: RATE_LIMIT_WINDOW_MS_def)
  qed
next
  case False
  then have th: "t \<in> set (history store ip)" using t by (simp add: step_history)
  show ?thesis
  proof (rule ccontr)
    assume "\<not> n - t < RATE_LIMIT_WINDOW_MS"
    then have "length (filter (\<lambda>t. n - t < RATE_LIMIT_WINDOW_MS) (history store ip))
                 < length (history store ip)"
      using th by (intro length_filter_less) auto
    then show False using False len by (simp add: fresh_def)
  qed
qed

lemma step_subset:
  assumes "t \<in> set (history (snd (isRateLimited store ip n)) ip')"
  shows "t \<in> set (history store ip') \<or> (ip' = ip \<and> t = n)"
  using assms fresh_subset[of store ip n]
  by (auto simp: step_history split: if_splits)

lemma reachable_invariant:
  "(\<forall>ip. length (history (snd (admissions Map.empty calls)) ip) \<le> RATE_LIMIT_MAX)
   \<and> (\<forall>ip. \<forall>t\<in>set (history (snd (admissions Map.empty calls)) ip). (ip, t) \<in> set calls)
   \<and> (\<forall>ip now. map_of (rev calls) ip = Some now \<longrightarrow>
         (\<forall>t\<in>set (history (snd (admissions Map.empty calls)) ip). now - t < RATE_LIMIT_WINDOW_MS))"
proof (induction calls rule: rev_induct)
  case Nil
  then show ?case by (simp add: history_def)
next
  case (snoc c xs)
  obtain ip0 n where c: "c = (ip0, n)" by (cases c)
  define s where "s = snd (admissions Map.empty xs)"
  have fin: "snd (admissions Map.empty (xs @ [c])) = snd (isRateLimited s ip0 n)"
    unfolding c s_def by (rule admissions_snd_snoc)
  from snoc have i1: "\<And>ip. length (history s ip) \<le> RATE_LIMIT_MAX"
    and i2: "\<And>ip t. t \<in> set (history s ip) \<Longrightarrow> (ip, t) \<in> set xs"
    and i3: "\<And>ip now t. map_of (rev xs) ip = Some now \<Longrightarrow> t \<in> set (history s ip)
               \<Longrightarrow> now - t < RATE_LIMIT_WINDOW_MS"
    unfolding s_def by blast+
  have g1: "\<forall>ip. length (history (snd (isRateLimited s ip0 n)) ip) \<le> RATE_LIMIT_MAX"
    using i1 by (simp add: step_length)
  have g2: "\<forall>ip. \<forall>t\<in>set (history (snd (isRateLimited s ip0 n)) ip). (ip, t) \<in> set (xs @ [c])"
  proof (intro allI ballI)
    fix ip t assume "t \<in> set (history (snd (isRateLimited s ip0 n)) ip)"
    then have "t \<in> set (history s ip) \<or> (ip = ip0 \<and> t = n)" by (rule step_subset)
    then show "(ip, t) \<in> set (xs @ [c])" using i2 c by auto
  qed
  have g3: "\<forall>ip now. map_of (rev (xs @ [c])) ip = Some now \<longrightarrow>
         (\<forall>t\<in>set (history (snd (isRateLimited s ip0 n)) ip). now - t < RATE_LIMIT_WINDOW_MS)"
  proof (intro allI impI ballI)
    fix ip now t
    assume m: "map_of (rev (xs @ [c])) ip = Some now"
      and t: "t \<in> set (history (snd (isRateLimited s ip0 n)) ip)"
    show "now - t < RATE_LIMIT_WINDOW_MS"
    proof (cases "ip = ip0")
      case True
      then have "now = n" using m c by simp
      then show ?thesis using step_window[OF i1[of ip0]] t True by simp
    next
      case False
      then have "map_of (rev xs) ip = Some now" using m c by simp
      moreover have "t \<in> set (history s ip)" using t False by (simp add: step_history)
      ultimately show ?thesis by (rule i3)
    qed
  qed
  show ?case unfolding fin using g1 g2 g3 by blast
qed

lemma last_call_latest:
  "sorted (map snd calls) \<Longrightarrow> map_of (rev calls) ip = Some now \<Longrightarrow> (ip, t) \<in> set calls \<Longrightarrow> t \<le> now"
proof (induction calls rule: rev_induct)
  case Nil
  then show ?case by simp
next
  case (snoc c xs)
  obtain ip0 n where c: "c = (ip0, n)" by (cases c)
  from snoc.prems(1) have sx: "sorted (map snd xs)" and le: "\<forall>x\<in>set xs. snd x \<le> n"
    by (auto simp: sorted_append c)
  show ?case
  proof (cases "ip = ip0")
    case True
    then have "now = n" using snoc.prems(2) c by simp
    then show ?thesis using snoc.prems(3) le c by auto
  next
    case False
    then have "map_of (rev xs) ip = Some now" "(ip, t) \<in> set xs"
      using snoc.prems c by auto
    then show ?thesis using snoc.IH sx by blast
  qed
qed

text \<open>
  Claim C9. After any sequence of admission calls by any clients, starting from the empty
  store: every client's stored list has at most 5 timestamps; and for every client that has
  called, each of its stored timestamps is less than 60000 ms older than the clock reading
  \<open>now\<close> of its latest call (and not later than it, when the clock readings of the calls
  never decrease).
\<close>

theorem C9_window_invariant:
  "(\<forall>ip. length (history (snd (admissions Map.empty calls)) ip) \<le> 5)
   \<and> (\<forall>ip now. map_of (rev calls) ip = Some now \<longrightarrow>
         (\<forall>t\<in>set (history (snd (admissions Map.empty calls)) ip).
            now - t < 60000 \<and> (sorted (map snd calls) \<longrightarrow> t \<le> now)))"
  using reachable_invariant[of calls] last_call_latest[of calls]
  unfolding RATE_LIMIT_MAX_def RATE_LIMIT_WINDOW_MS_def by blast

theorem C9_window_invariant_witness:
  "length (history (snd (admissions Map.empty
       [(''a'', 0), (''b'', 5), (''a'', 10), (''a'', 20), (''a'', 30), (''a'', 40), (''a'', 50), (''a'', 60005)])) ''a'') \<le> 5
   \<and> map_of (rev [(''a'', 0), (''b'', 5), (''a'', 10), (''a'', 20), (''a'', 30), (''a'', 40), (''a'', 50), (''a'', 60005)]) ''a''
        = Some (60005::int)
   \<and> history (snd (admissions Map.empty
       [(''a'', 0), (''b'', 5), (''a'', 10), (''a'', 20), (''a'', 30), (''a'', 40), (''a'', 50), (''a'', 60005)])) ''a''
        = [10, 20, 30, 40, 60005]
   \<and> sorted (map snd [(''a'', 0::int), (''b'', 5), (''a'', 10), (''a'', 20), (''a'', 30), (''a'', 40), (''a'', 50), (''a'', 60005)])"
  using C9_window_invariant[of "[(''a'', 0), (''b'', 5), (''a'', 10), (''a'', 20), (''a'', 30), (''a'', 40), (''a'', 50), (''a'', 60005)]"]
  by (simp add: isRateLimited_def fresh_def history_def RATE_LIMIT_MAX_def RATE_LIMIT_WINDOW_MS_def Let_def)

lemma spec_remaining_fresh: "spec_remaining store ip now = fresh store ip now"
  by (simp add: spec_remaining_def fresh_def history_def RATE_LIMIT_WINDOW_MS_def)

lemma denied_retryAfterSec:
  "RATE_LIMIT_MAX \<le> length (fresh store ip now) \<Longrightarrow>
     retryAfterSec (fst (isRateLimited store ip now)) = spec_retryAfterSeconds now (hd (fresh store ip now))"
  by (simp add: isRateLimited_denied ceil_sec_max spec_retryAfterSeconds_def RATE_LIMIT_WINDOW_MS_def)

lemma reachable_sorted:
  "sorted (map snd calls) \<Longrightarrow> sorted (history (snd (admissions Map.empty calls)) ip)"
proof (induction calls arbitrary: ip rule: rev_induct)
  case Nil
  then show ?case by (simp add: history_def)
next
  case (snoc c xs)
  obtain ip0 n where c: "c = (ip0, n)" by (cases c)
  define s where "s = snd (admissions Map.empty xs)"
  have fin: "snd (admissions Map.empty (xs @ [c])) = snd (isRateLimited s ip0 n)"
    unfolding c s_def by (rule admissions_snd_snoc)
  from snoc.prems have sx: "sorted (map snd xs)" and le: "\<forall>x\<in>set xs. snd x \<le> n"
    by (auto simp: sorted_append c)
  have srt: "sorted (history s ip')" for ip'
    unfolding s_def using snoc.IH[OF sx] .
  have mem: "t \<in> set (history s ip') \<Longrightarrow> t \<le> n" for t ip'
  proof -
    assume "t \<in> set (history s ip')"
    then have "(ip', t) \<in> set xs"
      using reachable_invariant[of xs] unfolding s_def by blast
    then show "t \<le> n" using le by force
  qed
  have sf: "sorted (fresh s ip0 n)"
    unfolding fresh_def using srt[of ip0] by (rule sorted_wrt_filter)
  have "sorted (fresh s ip0 n @ [n])"
    using sf mem fresh_subset[of s ip0 n] by (auto simp: sorted_append)
  then show ?case
    unfolding fin using srt by (simp add: step_history)
qed

lemma hd_sorted_least: "sorted xs \<Longrightarrow> t \<in> set xs \<Longrightarrow> hd xs \<le> (t::int)"
  by (cases xs) auto

text \<open>
  Claim C2. Admission is denied exactly when at least 5 of the client's stored timestamps
  remain after pruning, that is, are less than 60000 ms old. When it is denied: the wait
  returned is the one the specification asks for, computed from the first of the remaining
  timestamps, and is not negative; the store is returned as it was, so the denied attempt
  is not recorded; the response has status 429, the wait under \<open>retryAfterSec\<close> in its
  body and the same number, in decimal, as its \<open>Retry-After\<close> header; the model is not called
  and nothing is pushed. In a store reached from the empty one by calls whose clock
  readings never decrease, the first of the remaining timestamps is the least of them:
  the oldest.
\<close>

theorem C2_denied_response:
  "(limited (fst (isRateLimited store ip (clock_now e)))
      \<longleftrightarrow> 5 \<le> length (spec_remaining store ip (clock_now e)))
   \<and> (limited (fst (isRateLimited store ip (clock_now e))) \<longrightarrow>
         retryAfterSec (fst (isRateLimited store ip (clock_now e)))
           = spec_retryAfterSeconds (clock_now e) (hd (spec_remaining store ip (clock_now e)))
       \<and> 0 \<le> retryAfterSec (fst (isRateLimited store ip (clock_now e)))
       \<and> snd (isRateLimited store ip (clock_now e)) = store
       \<and> rl_store (POST JSON_parse e store ip) = store
       \<and> status (http (POST JSON_parse e store ip)) = 429
       \<and> get_prop (body (http (POST JSON_parse e store ip))) ''retryAfterSec''
           = Some (JNum (of_int (spec_retryAfterSeconds (clock_now e) (hd (spec_remaining store ip (clock_now e))))))
       \<and> map_of (headers (http (POST JSON_parse e store ip))) ''Retry-After''
           = Some (js_String (spec_retryAfterSeconds (clock_now e) (hd (spec_remaining store ip (clock_now e)))))
       \<and> ai_calls (POST JSON_parse e store ip) = []
       \<and> pushed (POST JSON_parse e store ip) = [])
   \<and> (store = snd (admissions Map.empty calls) \<and> sorted (map snd calls) \<longrightarrow>
         (\<forall>t\<in>set (spec_remaining store ip (clock_now e)).
             hd (spec_remaining store ip (clock_now e)) \<le> t))"
proof (intro conjI impI)
  show "limited (fst (isRateLimited store ip (clock_now e)))
      \<longleftrightarrow> 5 \<le> length (spec_remaining store ip (clock_now e))"
    by (simp add: isRateLimited_limited spec_remaining_fresh RATE_LIMIT_MAX_def)
next
  assume l: "limited (fst (isRateLimited store ip (clock_now e)))"
  then have d: "RATE_LIMIT_MAX \<le> length (fresh store ip (clock_now e))"
    by (simp add: isRateLimited_limited)
  note r = denied_retryAfterSec[OF d]
  note p = POST_denied[OF l, of JSON_parse]
  show "retryAfterSec (fst (isRateLimited store ip (clock_now e)))
           = spec_retryAfterSeconds (clock_now e) (hd (spec_remaining store ip (clock_now e)))"
    by (simp add: r spec_remaining_fresh)
  show "0 \<le> retryAfterSec (fst (isRateLimited store ip (clock_now e)))"
    by (simp add: r spec_retryAfterSeconds_def)
  show "snd (isRateLimited store ip (clock_now e)) = store"
    using d by (rule isRateLimited_denied_store)
  show "rl_store (POST JSON_parse e store ip) = store" by (simp add: p)
  show "status (http (POST JSON_parse e store ip)) = 429"
    by (simp add: p rate_limited_response_def)
  show "get_prop (body (http (POST JSON_parse e store ip))) ''retryAfterSec''
           = Some (JNum (of_int (spec_retryAfterSeconds (clock_now e) (hd (spec_remaining store ip (clock_now e))))))"
    by (simp add: p rate_limited_response_def get_prop_def r spec_remaining_fresh)
  show "map_of (headers (http (POST JSON_parse e store ip))) ''Retry-After''
           = Some (js_String (spec_retryAfterSeconds (clock_now e) (hd (spec_remaining store ip (clock_now e)))))"
    by (simp add: p rate_limited_response_def r spec_remaining_fresh)
  show "ai_calls (POST JSON_parse e store ip) = []" by (simp add: p)
  show "pushed (POST JSON_parse e store ip) = []" by (simp add: p)
next
  assume a: "store = snd (admissions Map.empty calls) \<and> sorted (map snd calls)"
  then have "sorted (history store ip)" using reachable_sorted[of calls ip] by simp
  then have "sorted (fresh store ip (clock_now e))"
    unfolding fresh_def by (rule sorted_wrt_filter)
  then show "\<forall>t\<in>set (spec_remaining store ip (clock_now e)).
             hd (spec_remaining store ip (clock_now e)) \<le> t"
    unfolding spec_remaining_fresh by (auto intro: hd_sorted_least)
qed

theorem C2_denied_response_witness:
  "snd (admissions Map.empty example_calls) = [''10.0.0.1'' \<mapsto> [0, 1000, 2000, 3000, 4000]]
   \<and> sorted (map snd example_calls)
   \<and> limited (fst (isRateLimited (snd (admissions Map.empty example_calls)) ''10.0.0.1''
        (clock_now (example_clock 5500))))
   \<and> spec_remaining (snd (admissions Map.empty example_calls)) ''10.0.0.1'' 5500
        = [0, 1000, 2000, 3000, 4000]
   \<and> retryAfterSec (fst (isRateLimited (snd (admissions Map.empty example_calls)) ''10.0.0.1''
        (clock_now (example_clock 5500)))) = 55
   \<and> http (POST (\<lambda>_. None) (example_clock 5500) (snd (admissions Map.empty example_calls)) ''10.0.0.1'')
      = \<lparr>status = 429, headers = [(''Retry-After'', ''55'')],
         body = JObj [(''success'', JBool False),
                      (''error'', JStr ''Rate limit exceeded. Please try again shortly.''),
                      (''retryAfterSec'', JNum 55)]\<rparr>
   \<and> rl_store (POST (\<lambda>_. None) (example_clock 5500) (snd (admissions Map.empty example_calls)) ''10.0.0.1'')
      = [''10.0.0.1'' \<mapsto> [0, 1000, 2000, 3000, 4000]]
   \<and> spec_remaining (snd (admissions Map.empty example_calls)) ''10.0.0.1'' 86400000 = []
   \<and> \<not> limited (fst (isRateLimited (snd (admissions Map.empty example_calls)) ''10.0.0.1''
        (clock_now (example_clock 86400000))))"
proof -
  let ?s = "snd (admissions Map.empty example_calls)"
  have s: "?s = [''10.0.0.1'' \<mapsto> [0, 1000, 2000, 3000, 4000]]"
    by (simp add: example_calls_def isRateLimited_def fresh_def history_def RATE_LIMIT_MAX_def
        RATE_LIMIT_WINDOW_MS_def Let_def)
  have so: "sorted (map snd example_calls)" by (simp add: example_calls_def)
  have c: "clock_now (example_clock n) = n" for n by (simp add: example_clock_def)
  have r1: "spec_remaining ?s ''10.0.0.1'' 5500 = [0, 1000, 2000, 3000, 4000]"
    unfolding s by (simp add: spec_remaining_def)
  have r2: "spec_remaining ?s ''10.0.0.1'' 86400000 = []"
    unfolding s by (simp add: spec_remaining_def)
  have w: "spec_retryAfterSeconds 5500 0 = 55" by (simp add: spec_retryAfterSeconds_def)
  have st: "js_String 55 = ''55''"
    by (simp add: js_String_def nat_digits.simps digit_char_def)
  note a = C2_denied_response[of ?s "''10.0.0.1''" "example_clock 5500" "\<lambda>_. None" example_calls,
      unfolded c r1]
  note b = C2_denied_response[of ?s "''10.0.0.1''" "example_clock 86400000" "\<lambda>_. None" example_calls,
      unfolded c r2]
  have l: "limited (fst (isRateLimited ?s ''10.0.0.1'' 5500))" using a by simp
  have n: "\<not> limited (fst (isRateLimited ?s ''10.0.0.1'' 86400000))" using b by simp
  have rs: "retryAfterSec (fst (isRateLimited ?s ''10.0.0.1'' 5500)) = 55"
    using a l by (simp add: w)
  have h: "http (POST (\<lambda>_. None) (example_clock 5500) ?s ''10.0.0.1'')
      = \<lparr>status = 429, headers = [(''Retry-After'', ''55'')],
         body = JObj [(''success'', JBool False),
                      (''error'', JStr ''Rate limit exceeded. Please try again shortly.''),
                      (''retryAfterSec'', JNum 55)]\<rparr>"
    using POST_denied[of ?s "''10.0.0.1''" "example_clock 5500" "\<lambda>_. None"] l
    by (simp only: c outcome.simps rate_limited_response_def rs st) simp
  have rl: "rl_store (POST (\<lambda>_. None) (example_clock 5500) ?s ''10.0.0.1'')
      = [''10.0.0.1'' \<mapsto> [0, 1000, 2000, 3000, 4000]]"
    using a l s by simp
  show ?thesis
    unfolding c
    by (intro conjI) (rule s so l r1 rs h rl r2 n)+
qed

section \<open>Properties of input validation\<close>

lemma parse_rating_ok:
  "1 \<le> x \<Longrightarrow> x \<le> 5 \<Longrightarrow> parse_rating (Some (JNum x)) = Inr x"
  by (simp add: parse_rating_def)

lemma parse_rating_bad:
  "\<not> (\<exists>x. v = Some (JNum x) \<and> 1 \<le> x \<and> x \<le> 5) \<Longrightarrow>
     \<exists>m. parse_rating v = Inl [Issue [Key ''rating''] m]"
proof (cases v)
  case None
  then show ?thesis by (simp add: parse_rating_def invalid_type_def)
next
  case (Some j)
  assume a: "\<not> (\<exists>x. v = Some (JNum x) \<and> 1 \<le> x \<and> x \<le> 5)"
  show ?thesis
  proof (cases j)
    case (JNum x)
    with a Some have "x < 1 \<or> 5 < x" by auto
    then show ?thesis using Some JNum by (auto simp: parse_rating_def)
  qed (simp_all add: Some parse_rating_def invalid_type_def)
qed

lemma parse_review_ok:
  "5 \<le> length s \<Longrightarrow> length s \<le> 1000 \<Longrightarrow> parse_review (Some (JStr s)) = Inr s"
  by (simp add: parse_review_def)

lemma parse_review_bad:
  "\<not> (\<exists>s. v = Some (JStr s) \<and> 5 \<le> length s \<and> length s \<le> 1000) \<Longrightarrow>
     \<exists>m. parse_review v = Inl [Issue [Key ''review''] m]"
proof (cases v)
  case None
  then show ?thesis by (simp add: parse_review_def invalid_type_def)
next
  case (Some j)
  assume a: "\<not> (\<exists>s. v = Some (JStr s) \<and> 5 \<le> length s \<and> length s \<le> 1000)"
  show ?thesis
  proof (cases j)
    case (JStr s)
    with a Some have "length s < 5 \<or> 1000 < length s" by auto
    then show ?thesis using Some JStr by (auto simp: parse_review_def)
  qed (simp_all add: Some parse_review_def invalid_type_def)
qed

lemma safeParse_object:
  "ReviewFormSchema_safeParse (JObj kvs) =
     (case (parse_rating (map_of kvs ''rating''), parse_review (map_of kvs ''review'')) of
        (Inr x, Inr s) \<Rightarrow> Inr (x, s)
      | (r1, r2) \<Rightarrow> Inl (errs r1 @ errs r2))"
  by (simp add: ReviewFormSchema_safeParse_def)

lemma safeParse_not_object:
  "(\<forall>kvs. b \<noteq> JObj kvs) \<Longrightarrow> \<exists>m. ReviewFormSchema_safeParse b = Inl [Issue [] m]"
  by (cases b) (simp_all add: ReviewFormSchema_safeParse_def invalid_type_def)

lemma flatten_rating: "fieldErrors (flatten [Issue [Key ''rating''] m]) = [(''rating'', [m])]"
  by (simp add: flatten_def flatten_step_def path_key_def)

lemma flatten_review: "fieldErrors (flatten [Issue [Key ''review''] m]) = [(''review'', [m])]"
  by (simp add: flatten_def flatten_step_def path_key_def)

lemma flatten_both:
  "fieldErrors (flatten [Issue [Key ''rating''] m, Issue [Key ''review''] m'])
     = [(''rating'', [m]), (''review'', [m'])]"
  by (simp add: flatten_def flatten_step_def path_key_def)

lemma safeParse_accepts:
  "ReviewFormSchema_safeParse b = Inr (x, s) \<longleftrightarrow>
     (\<exists>kvs. b = JObj kvs \<and> map_of kvs ''rating'' = Some (JNum x) \<and> 1 \<le> x \<and> x \<le> 5
            \<and> map_of kvs ''review'' = Some (JStr s) \<and> 5 \<le> length s \<and> length s \<le> 1000)"
proof (cases "\<exists>kvs. b = JObj kvs")
  case False
  then show ?thesis using safeParse_not_object[of b] by auto
next
  case True
  then obtain kvs where b: "b = JObj kvs" by blast
  show ?thesis
  proof (cases "rating_in_range kvs")
    case rt: True
    then obtain x' where x': "map_of kvs ''rating'' = Some (JNum x')" "1 \<le> x'" "x' \<le> 5"
      unfolding rating_in_range_def by blast
    show ?thesis
    proof (cases "review_in_range kvs")
      case True
      then obtain s' where s': "map_of kvs ''review'' = Some (JStr s')" "5 \<le> length s'" "length s' \<le> 1000"
        unfolding review_in_range_def by blast
      show ?thesis
        using x' s' by (auto simp: b safeParse_object parse_rating_ok parse_review_ok)
    next
      case False
      then obtain m where "parse_review (map_of kvs ''review'') = Inl [Issue [Key ''review''] m]"
        using parse_review_bad[of "map_of kvs ''review''"] unfolding review_in_range_def by blast
      then show ?thesis
        using x' False by (auto simp: b safeParse_object parse_rating_ok review_in_range_def)
    qed
  next
    case False
    then obtain m where "parse_rating (map_of kvs ''rating'') = Inl [Issue [Key ''rating''] m]"
      using parse_rating_bad[of "map_of kvs ''rating''"] unfolding rating_in_range_def by blast
    then show ?thesis
      using False by (auto simp: b safeParse_object rating_in_range_def split: sum.splits)
  qed
qed

lemma safeParse_fieldErrors:
  assumes "ReviewFormSchema_safeParse (JObj kvs) = Inl issues"
  shows "\<exists>m m'. fieldErrors (flatten issues) =
           (if rating_in_range kvs then [] else [(''rating'', [m])])
           @ (if review_in_range kvs then [] else [(''review'', [m'])])"
proof -
  have r: "rating_in_range kvs \<Longrightarrow> \<exists>x. parse_rating (map_of kvs ''rating'') = Inr x"
    unfolding rating_in_range_def using parse_rating_ok by auto
  have r': "\<not> rating_in_range kvs \<Longrightarrow> \<exists>m. parse_rating (map_of kvs ''rating'') = Inl [Issue [Key ''rating''] m]"
    unfolding rating_in_range_def using parse_rating_bad[of "map_of kvs ''rating''"] by blast
  have v: "review_in_range kvs \<Longrightarrow> \<exists>s. parse_review (map_of kvs ''review'') = Inr s"
    unfolding review_in_range_def using parse_review_ok by auto
  have v': "\<not> review_in_range kvs \<Longrightarrow> \<exists>m. parse_review (map_of kvs ''review'') = Inl [Issue [Key ''review''] m]"
    unfolding review_in_range_def using parse_review_bad[of "map_of kvs ''review''"] by blast
  show ?thesis
  proof (cases "rating_in_range kvs")
    case rt: True
    then obtain x where x: "parse_rating (map_of kvs ''rating'') = Inr x" using r by blast
    show ?thesis
    proof (cases "review_in_range kvs")
      case True
      then obtain s where "parse_review (map_of kvs ''review'') = Inr s" using v by blast
      then show ?thesis using assms x by (simp add: safeParse_object)
    next
      case False
      then obtain m where "parse_review (map_of kvs ''review'') = Inl [Issue [Key ''review''] m]"
        using v' by blast
      then show ?thesis using assms x rt False
        by (auto simp: safeParse_object errs_def flatten_review)
    qed
  next
    case rf: False
    then obtain m where m: "parse_rating (map_of kvs ''rating'') = Inl [Issue [Key ''rating''] m]"
      using r' by blast
    show ?thesis
    proof (cases "review_in_range kvs")
      case True
      then obtain s where "parse_review (map_of kvs ''review'') = Inr s" using v by blast
      then show ?thesis using assms m rf True
        by (auto simp: safeParse_object errs_def flatten_rating)
    next
      case False
      then obtain m' where "parse_review (map_of kvs ''review'') = Inl [Issue [Key ''review''] m']"
        using v' by blast
      then show ?thesis using assms m rf False
        by (auto simp: safeParse_object errs_def flatten_both)
    qed
  qed
qed

lemma POST_invalid_input:
  assumes "\<not> limited (fst (isRateLimited store ip (clock_now e)))"
    and "request_json e = Inr b"
    and "ReviewFormSchema_safeParse b = Inl issues"
  shows "POST JSON_parse e store ip =
           \<lparr>http = invalid_input_response issues,
            rl_store = snd (isRateLimited store ip (clock_now e)),
            ai_calls = [], pushed = [], logs = []\<rparr>"
  using assms by (simp add: POST_admitted after_admission_def)

text \<open>
  Claim C3, as the code has it. A body is accepted exactly when it is an object whose
  \<open>rating\<close> is a number from 1 to 5 (whole or not) and whose \<open>review\<close> is a string of
  5 to 1000 characters, bounds included. When an object is rejected, the flattened error
  has a message under \<open>rating\<close> exactly when the rating is out of range, missing or not a
  number, and one under \<open>review\<close> exactly when the review is: every violated field is
  reported. The route then answers 400 with these details, and neither calls the model nor
  pushes a document.
\<close>

theorem C3_input_validation:
  "(ReviewFormSchema_safeParse b = Inr (x, s) \<longleftrightarrow>
      (\<exists>kvs. b = JObj kvs \<and> map_of kvs ''rating'' = Some (JNum x) \<and> 1 \<le> x \<and> x \<le> 5
             \<and> map_of kvs ''review'' = Some (JStr s) \<and> 5 \<le> length s \<and> length s \<le> 1000))
   \<and> (b = JObj kvs \<and> ReviewFormSchema_safeParse b = Inl issues \<longrightarrow>
        ((\<exists>m. (''rating'', [m]) \<in> set (fieldErrors (flatten issues))) \<longleftrightarrow>
           \<not> (\<exists>x. map_of kvs ''rating'' = Some (JNum x) \<and> 1 \<le> x \<and> x \<le> 5))
      \<and> ((\<exists>m. (''review'', [m]) \<in> set (fieldErrors (flatten issues))) \<longleftrightarrow>
           \<not> (\<exists>s. map_of kvs ''review'' = Some (JStr s) \<and> 5 \<le> length s \<and> length s \<le> 1000)))
   \<and> (\<not> limited (fst (isRateLimited store ip (clock_now e))) \<and> request_json e = Inr b
        \<and> ReviewFormSchema_safeParse b = Inl issues \<longrightarrow>
        status (http (POST JSON_parse e store ip)) = 400
      \<and> get_prop (body (http (POST JSON_parse e store ip))) ''details''
           = Some (flattened_json (flatten issues))
      \<and> ai_calls (POST JSON_parse e store ip) = []
      \<and> pushed (POST JSON_parse e store ip) = [])"
proof (intro conjI impI)
  show "ReviewFormSchema_safeParse b = Inr (x, s) \<longleftrightarrow>
      (\<exists>kvs. b = JObj kvs \<and> map_of kvs ''rating'' = Some (JNum x) \<and> 1 \<le> x \<and> x \<le> 5
             \<and> map_of kvs ''review'' = Some (JStr s) \<and> 5 \<le> length s \<and> length s \<le> 1000)"
    by (rule safeParse_accepts)
next
  assume a: "b = JObj kvs \<and> ReviewFormSchema_safeParse b = Inl issues"
  then obtain m m' where f: "fieldErrors (flatten issues) =
           (if rating_in_range kvs then [] else [(''rating'', [m])])
           @ (if review_in_range kvs then [] else [(''review'', [m'])])"
    using safeParse_fieldErrors[of kvs issues] by auto
  show "(\<exists>m. (''rating'', [m]) \<in> set (fieldErrors (flatten issues))) \<longleftrightarrow>
           \<not> (\<exists>x. map_of kvs ''rating'' = Some (JNum x) \<and> 1 \<le> x \<and> x \<le> 5)"
    unfolding f rating_in_range_def[symmetric] by simp
  show "(\<exists>m. (''review'', [m]) \<in> set (fieldErrors (flatten issues))) \<longleftrightarrow>
           \<not> (\<exists>s. map_of kvs ''review'' = Some (JStr s) \<and> 5 \<le> length s \<and> length s \<le> 1000)"
    unfolding f review_in_range_def[symmetric] by simp
next
  assume a: "\<not> limited (fst (isRateLimited store ip (clock_now e))) \<and> request_json e = Inr b
        \<and> ReviewFormSchema_safeParse b = Inl issues"
  then have p: "POST JSON_parse e store ip =
           \<lparr>http = invalid_input_response issues,
            rl_store = snd (isRateLimited store ip (clock_now e)),
            ai_calls = [], pushed = [], logs = []\<rparr>"
    by (simp add: POST_invalid_input)
  show "status (http (POST JSON_parse e store ip)) = 400"
    by (simp add: p invalid_input_response_def)
  show "get_prop (body (http (POST JSON_parse e store ip))) ''details''
           = Some (flattened_json (flatten issues))"
    by (simp add: p invalid_input_response_def get_prop_def)
  show "ai_calls (POST JSON_parse e store ip) = []" by (simp add: p)
  show "pushed (POST JSON_parse e store ip) = []" by (simp add: p)
qed

text \<open>
  Claim C3 as stated asks for an integer rating. The schema has no such check: the rating
  2.5 is accepted.
\<close>

theorem C3_counterexample:
  "ReviewFormSchema_safeParse (JObj [(''rating'', JNum 2.5), (''review'', JStr ''Hello'')])
     = Inr (2.5, ''Hello'')
   \<and> (2.5::real) \<notin> \<int>"
  by (simp add: ReviewFormSchema_safeParse_def parse_rating_def parse_review_def)

theorem C3_input_validation_witness:
  "ReviewFormSchema_safeParse (JObj [(''rating'', JNum 0), (''review'', JStr ''abcd'')])
     = Inl [Issue [Key ''rating''] ''Rating must be at least 1'',
            Issue [Key ''review''] ''Review must be at least 5 characters'']
   \<and> fieldErrors (flatten [Issue [Key ''rating''] ''Rating must be at least 1'',
                             Issue [Key ''review''] ''Review must be at least 5 characters''])
       = [(''rating'', [''Rating must be at least 1'']),
          (''review'', [''Review must be at least 5 characters''])]
   \<and> status (http (POST (\<lambda>_. None)
         (example_env (Inr (JObj [(''rating'', JNum 0), (''review'', JStr ''abcd'')])) (Inr None) None)
         Map.empty ''10.0.0.1'')) = 400
   \<and> ai_calls (POST (\<lambda>_. None)
         (example_env (Inr (JObj [(''rating'', JNum 0), (''review'', JStr ''abcd'')])) (Inr None) None)
         Map.empty ''10.0.0.1'') = []
   \<and> ReviewFormSchema_safeParse (JObj [(''rating'', JNum 1), (''review'', JStr ''abcde'')])
       = Inr (1, ''abcde'')"
proof -
  have p: "ReviewFormSchema_safeParse (JObj [(''rating'', JNum 0), (''review'', JStr ''abcd'')])
     = Inl [Issue [Key ''rating''] ''Rating must be at least 1'',
            Issue [Key ''review''] ''Review must be at least 5 characters'']"
    by (simp add: ReviewFormSchema_safeParse_def parse_rating_def parse_review_def errs_def)
  have a: "\<not> limited (fst (isRateLimited Map.empty ''10.0.0.1''
      (clock_now (example_env (Inr (JObj [(''rating'', JNum 0), (''review'', JStr ''abcd'')])) (Inr None) None))))"
    by (simp add: isRateLimited_limited fresh_def history_def RATE_LIMIT_MAX_def)
  have r: "request_json (example_env (Inr (JObj [(''rating'', JNum 0), (''review'', JStr ''abcd'')])) (Inr None) None)
      = Inr (JObj [(''rating'', JNum 0), (''review'', JStr ''abcd'')])"
    by (simp add: example_env_def)
  have q: "ReviewFormSchema_safeParse (JObj [(''rating'', JNum 1), (''review'', JStr ''abcde'')])
       = Inr (1, ''abcde'')"
    by (simp add: ReviewFormSchema_safeParse_def parse_rating_def parse_review_def)
  show ?thesis
    using p a r q
      C3_input_validation[of "JObj [(''rating'', JNum 0), (''review'', JStr ''abcd'')]" 0 "''abcd''"
        "[(''rating'', JNum 0), (''review'', JStr ''abcd'')]"
        "[Issue [Key ''rating''] ''Rating must be at least 1'',
          Issue [Key ''review''] ''Review must be at least 5 characters'']"
        Map.empty "''10.0.0.1''"
        "example_env (Inr (JObj [(''rating'', JNum 0), (''review'', JStr ''abcd'')])) (Inr None) None"
        "\<lambda>_. None"]
    by (simp add: flatten_both)
qed

section \<open>Properties of the review route\<close>

lemma after_admission_valid:
  assumes "request_json e = Inr b" and "ReviewFormSchema_safeParse b = Inr (r, v)"
  shows "after_admission JSON_parse e store' =
           (case generateContent e (Analyze r v) of
              Inl ex \<Rightarrow> \<lparr>http = caught ex, rl_store = store', ai_calls = [Analyze r v],
                         pushed = [], logs = [LogError ex]\<rparr>
            | Inr text \<Rightarrow> after_generateContent JSON_parse e store' r v text)"
  using assms by (simp add: after_admission_def)

lemma after_admission_body_throws:
  "request_json e = Inl ex \<Longrightarrow>
     after_admission JSON_parse e store' =
       \<lparr>http = caught ex, rl_store = store', ai_calls = [], pushed = [], logs = [LogError ex]\<rparr>"
  by (simp add: after_admission_def)

lemma parse_ai_text_cases:
  "parse_ai_text JSON_parse None = (None, [])"
  "parse_ai_text JSON_parse (Some []) = (None, [])"
  "t \<noteq> [] \<Longrightarrow> JSON_parse t = None \<Longrightarrow> parse_ai_text JSON_parse (Some t) = (None, [LogParseFailed t])"
  "t \<noteq> [] \<Longrightarrow> JSON_parse t = Some j \<Longrightarrow> parse_ai_text JSON_parse (Some t) = (Some j, [])"
  by (simp_all add: parse_ai_text_def)

lemma after_generateContent_unparsed:
  "parse_ai_text JSON_parse text = (None, plogs) \<Longrightarrow>
     after_generateContent JSON_parse e store' r v text =
       \<lparr>http = parsing_failed_response, rl_store = store', ai_calls = [Analyze r v],
        pushed = [], logs = plogs\<rparr>"
  by (simp add: after_generateContent_def)

lemma after_generateContent_falsy:
  "parse_ai_text JSON_parse text = (Some j, plogs) \<Longrightarrow> \<not> truthy j \<Longrightarrow>
     after_generateContent JSON_parse e store' r v text =
       \<lparr>http = parsing_failed_response, rl_store = store', ai_calls = [Analyze r v],
        pushed = [], logs = plogs\<rparr>"
  by (simp add: after_generateContent_def)

lemma after_generateContent_invalid:
  "parse_ai_text JSON_parse text = (Some j, plogs) \<Longrightarrow> truthy j \<Longrightarrow>
   AIResponseSchema_safeParse j = Inl issues \<Longrightarrow>
     after_generateContent JSON_parse e store' r v text =
       \<lparr>http = invalid_structure_response, rl_store = store', ai_calls = [Analyze r v],
        pushed = [], logs = plogs @ [LogInvalidStructure (flatten issues)]\<rparr>"
  by (simp add: after_generateContent_def)

lemma after_generateContent_valid:
  "parse_ai_text JSON_parse text = (Some j, plogs) \<Longrightarrow> truthy j \<Longrightarrow>
   AIResponseSchema_safeParse j = Inr aiData \<Longrightarrow>
     after_generateContent JSON_parse e store' r v text =
       (case db_push e (reviewData r v aiData (max 0 (round (perf_end e - perf_start e))) (created_now e)) of
          Some ex \<Rightarrow>
            \<lparr>http = caught ex, rl_store = store', ai_calls = [Analyze r v], pushed = [],
             logs = plogs @ [LogError ex]\<rparr>
        | None \<Rightarrow>
            \<lparr>http = success_response aiData, rl_store = store', ai_calls = [Analyze r v],
             pushed = [reviewData r v aiData (max 0 (round (perf_end e - perf_start e))) (created_now e)],
             logs = plogs\<rparr>)"
  by (simp add: after_generateContent_def Let_def)

lemma AIResponseSchema_object:
  "AIResponseSchema_safeParse (JObj kvs) =
     (case (parse_nonempty ''response'' (map_of kvs ''response''),
            parse_nonempty ''summary'' (map_of kvs ''summary''),
            parse_nonempty ''action'' (map_of kvs ''action''),
            parse_sentiment_score (map_of kvs ''sentiment_score''),
            parse_tags (map_of kvs ''tags'')) of
        (Inr r, Inr s, Inr a, Inr sc, Inr ts) \<Rightarrow>
          Inr \<lparr>response = r, summary = s, action = a, sentiment_score = sc, tags = ts\<rparr>
      | (r1, r2, r3, r4, r5) \<Rightarrow> Inl (errs r1 @ errs r2 @ errs r3 @ errs r4 @ errs r5))"
  by (simp add: AIResponseSchema_safeParse_def)

lemma parse_sentiment_score_ok:
  "0 \<le> x \<Longrightarrow> x \<le> 100 \<Longrightarrow> parse_sentiment_score (Some (JNum x)) = Inr x"
  by (simp add: parse_sentiment_score_def)

lemma parse_sentiment_score_bad:
  "x < 0 \<or> 100 < x \<Longrightarrow> \<exists>is. parse_sentiment_score (Some (JNum x)) = Inl is"
  by (auto simp: parse_sentiment_score_def)

text \<open>
  Claim C5. An admitted request with a valid body, for which the model returns a JSON
  object whose other properties are valid and whose \<open>sentiment_score\<close> is the number \<open>x\<close>,
  and whose document the database accepts: when \<open>0 \<le> x \<le> 100\<close> the reply passes the schema,
  the answer is 200 and the one document pushed has \<open>ai_sentiment = round x\<close>, the nearest
  integer (halves go up); when \<open>x\<close> is outside that range the schema rejects the reply, the
  answer is the 500 for an invalid structure, and nothing is pushed.
\<close>

theorem C5_sentiment_score:
  assumes adm: "\<not> limited (fst (isRateLimited store ip (clock_now e)))"
    and bd: "request_json e = Inr b"
    and form: "ReviewFormSchema_safeParse b = Inr (r, v)"
    and ai: "generateContent e (Analyze r v) = Inr (Some t)"
    and ne: "t \<noteq> []"
    and js: "JSON_parse t = Some (JObj kvs)"
    and f1: "parse_nonempty ''response'' (map_of kvs ''response'') = Inr rs"
    and f2: "parse_nonempty ''summary'' (map_of kvs ''summary'') = Inr sm"
    and f3: "parse_nonempty ''action'' (map_of kvs ''action'') = Inr ac"
    and f5: "parse_tags (map_of kvs ''tags'') = Inr ts"
    and sc: "map_of kvs ''sentiment_score'' = Some (JNum x)"
    and db: "\<forall>d. db_push e d = None"
  shows "(0 \<le> x \<and> x \<le> 100 \<longrightarrow>
            AIResponseSchema_safeParse (JObj kvs)
              = Inr \<lparr>response = rs, summary = sm, action = ac, sentiment_score = x, tags = ts\<rparr>
          \<and> status (http (POST JSON_parse e store ip)) = 200
          \<and> map ai_sentiment (pushed (POST JSON_parse e store ip)) = [round x])
       \<and> (x < 0 \<or> 100 < x \<longrightarrow>
            (\<exists>issues. AIResponseSchema_safeParse (JObj kvs) = Inl issues)
          \<and> status (http (POST JSON_parse e store ip)) = 500
          \<and> http (POST JSON_parse e store ip) = invalid_structure_response
          \<and> pushed (POST JSON_parse e store ip) = [])"
proof -
  define store' where "store' = snd (isRateLimited store ip (clock_now e))"
  have post: "POST JSON_parse e store ip = after_generateContent JSON_parse e store' r v (Some t)"
    using adm by (simp add: POST_admitted after_admission_valid[OF bd form] ai store'_def)
  have pt: "parse_ai_text JSON_parse (Some t) = (Some (JObj kvs), [])"
    using ne js by (simp add: parse_ai_text_cases)
  have tr: "truthy (JObj kvs)" by simp
  show ?thesis
  proof (intro conjI impI)
    assume in_range: "0 \<le> x \<and> x \<le> 100"
    then have ok: "AIResponseSchema_safeParse (JObj kvs)
              = Inr \<lparr>response = rs, summary = sm, action = ac, sentiment_score = x, tags = ts\<rparr>"
      by (simp add: AIResponseSchema_object f1 f2 f3 f5 sc parse_sentiment_score_ok)
    then show "AIResponseSchema_safeParse (JObj kvs)
              = Inr \<lparr>response = rs, summary = sm, action = ac, sentiment_score = x, tags = ts\<rparr>" .
    note v = after_generateContent_valid[OF pt tr ok, of e store' r v]
    show "status (http (POST JSON_parse e store ip)) = 200"
      unfolding post v using db by (simp add: success_response_def)
    show "map ai_sentiment (pushed (POST JSON_parse e store ip)) = [round x]"
      unfolding post v using db by (simp add: reviewData_def)
  next
    assume out: "x < 0 \<or> 100 < x"
    then obtain iss where "parse_sentiment_score (Some (JNum x)) = Inl iss"
      using parse_sentiment_score_bad by blast
    then have bad: "AIResponseSchema_safeParse (JObj kvs) = Inl iss"
      by (simp add: AIResponseSchema_object f1 f2 f3 f5 sc errs_def)
    then show "\<exists>issues. AIResponseSchema_safeParse (JObj kvs) = Inl issues" by blast
    note v = after_generateContent_invalid[OF pt tr bad, of e store' r v]
    show "status (http (POST JSON_parse e store ip)) = 500"
      unfolding post v by (simp add: invalid_structure_response_def)
    show "http (POST JSON_parse e store ip) = invalid_structure_response"
      unfolding post v by simp
    show "pushed (POST JSON_parse e store ip) = []"
      unfolding post v by simp
  qed
qed

lemma example_admitted:
  "\<not> limited (fst (isRateLimited Map.empty ''10.0.0.1'' (clock_now (example_env bo ao dbo))))"
  by (simp add: isRateLimited_limited fresh_def history_def RATE_LIMIT_MAX_def)

lemma example_body_valid:
  "ReviewFormSchema_safeParse example_body = Inr (5, ''Great service, very happy!'')"
  by (simp add: example_body_def ReviewFormSchema_safeParse_def parse_rating_def parse_review_def)

lemma example_reply_text_nonempty: "example_reply_text sc tg \<noteq> []"
  by (simp add: example_reply_text_def)

lemma example_env_sel:
  "request_json (example_env bo ao dbo) = bo"
  "generateContent (example_env bo ao dbo) c = ao"
  "db_push (example_env bo ao dbo) d = dbo"
  "created_now (example_env bo ao dbo) = 1700000000421"
  "max 0 (round (perf_end (example_env bo ao dbo) - perf_start (example_env bo ao dbo))) = 421"
  by (simp_all add: example_env_def round_def)

lemma example_reply_no_tags:
  "example_reply score None =
     JObj [(''response'', JStr ''Thanks!''), (''summary'', JStr ''Happy customer''),
           (''action'', JStr ''None needed''), (''sentiment_score'', JNum score)]"
  by (simp add: example_reply_def opt_prop_def)

lemma example_reply_tags:
  "example_reply score (Some tg) =
     JObj [(''response'', JStr ''Thanks!''), (''summary'', JStr ''Happy customer''),
           (''action'', JStr ''None needed''), (''sentiment_score'', JNum score), (''tags'', tg)]"
  by (simp add: example_reply_def opt_prop_def)

lemma parses_as_same: "parses_as t j t = Some j"
  by (simp add: parses_as_def)

theorem C5_sentiment_score_witness:
  "map ai_sentiment (pushed (POST
       (parses_as (example_reply_text ''91.6'' []) (example_reply 91.6 None))
       (example_env (Inr example_body) (Inr (Some (example_reply_text ''91.6'' []))) None)
       Map.empty ''10.0.0.1'')) = [92]
   \<and> status (http (POST
       (parses_as (example_reply_text ''91.6'' []) (example_reply 91.6 None))
       (example_env (Inr example_body) (Inr (Some (example_reply_text ''91.6'' []))) None)
       Map.empty ''10.0.0.1'')) = 200
   \<and> status (http (POST
       (parses_as (example_reply_text ''101'' []) (example_reply 101 None))
       (example_env (Inr example_body) (Inr (Some (example_reply_text ''101'' []))) None)
       Map.empty ''10.0.0.1'')) = 500
   \<and> pushed (POST
       (parses_as (example_reply_text ''101'' []) (example_reply 101 None))
       (example_env (Inr example_body) (Inr (Some (example_reply_text ''101'' []))) None)
       Map.empty ''10.0.0.1'') = []"
proof -
  let ?kvs = "\<lambda>score. [(''response'', JStr ''Thanks!''), (''summary'', JStr ''Happy customer''),
           (''action'', JStr ''None needed''), (''sentiment_score'', JNum score)]"
  have js: "parses_as tx (example_reply score None) tx = Some (JObj (?kvs score))" for tx score
    by (simp add: parses_as_same example_reply_no_tags)
  have f1: "parse_nonempty ''response'' (map_of (?kvs score) ''response'') = Inr ''Thanks!''" for score
    by (simp add: parse_nonempty_def)
  have f2: "parse_nonempty ''summary'' (map_of (?kvs score) ''summary'') = Inr ''Happy customer''" for score
    by (simp add: parse_nonempty_def)
  have f3: "parse_nonempty ''action'' (map_of (?kvs score) ''action'') = Inr ''None needed''" for score
    by (simp add: parse_nonempty_def)
  have f5: "parse_tags (map_of (?kvs score) ''tags'') = Inr []" for score
    by (simp add: parse_tags_def)
  have sc: "map_of (?kvs score) ''sentiment_score'' = Some (JNum score)" for score
    by simp
  have db: "\<forall>d. db_push (example_env bo ao None) d = None" for bo ao
    by (simp add: example_env_sel)
  note a = C5_sentiment_score[of Map.empty "''10.0.0.1''"
      "example_env (Inr example_body) (Inr (Some (example_reply_text ''91.6'' []))) None"
      example_body 5 "''Great service, very happy!''" "example_reply_text ''91.6'' []"
      "parses_as (example_reply_text ''91.6'' []) (example_reply 91.6 None)" "?kvs 91.6"
      "''Thanks!''" "''Happy customer''" "''None needed''" "[]" "91.6",
      OF example_admitted example_env_sel(1) example_body_valid
      example_env_sel(2) example_reply_text_nonempty js f1 f2 f3 f5 sc db]
  note b = C5_sentiment_score[of Map.empty "''10.0.0.1''"
      "example_env (Inr example_body) (Inr (Some (example_reply_text ''101'' []))) None"
      example_body 5 "''Great service, very happy!''" "example_reply_text ''101'' []"
      "parses_as (example_reply_text ''101'' []) (example_reply 101 None)" "?kvs 101"
      "''Thanks!''" "''Happy customer''" "''None needed''" "[]" "101",
      OF example_admitted example_env_sel(1) example_body_valid
      example_env_sel(2) example_reply_text_nonempty js f1 f2 f3 f5 sc db]
  show ?thesis
    using a b by (simp add: round_def invalid_structure_response_def)
qed

lemma POST_valid_body:
  assumes "\<not> limited (fst (isRateLimited store ip (clock_now e)))"
    and "request_json e = Inr b" and "ReviewFormSchema_safeParse b = Inr (r, v)"
  shows "POST JSON_parse e store ip =
           (case generateContent e (Analyze r v) of
              Inl ex \<Rightarrow> \<lparr>http = caught ex, rl_store = snd (isRateLimited store ip (clock_now e)),
                         ai_calls = [Analyze r v], pushed = [], logs = [LogError ex]\<rparr>
            | Inr text \<Rightarrow> after_generateContent JSON_parse e
                           (snd (isRateLimited store ip (clock_now e))) r v text)"
  using assms by (simp add: POST_admitted after_admission_valid)

lemma example_env_clock: "clock_now (example_env bo ao dbo) = 1700000000000"
  by (simp add: example_env_def)

lemma parse_tag_allowed: "s \<in> set AllowedTags \<Longrightarrow> parse_tag p (JStr s) = Inr s"
  by (simp add: parse_tag_def)

lemma parse_tags_enumerate:
  "set ss \<subseteq> set AllowedTags \<Longrightarrow>
     map (\<lambda>(i, x). parse_tag [Key ''tags'', Index i] x) (enumerate n (map JStr ss)) = map Inr ss"
  by (induction ss arbitrary: n) (simp_all add: parse_tag_allowed)

lemma parse_tags_any_length:
  assumes "set ss \<subseteq> set AllowedTags"
  shows "parse_tags (Some (JArr (map JStr ss))) = Inr ss"
proof -
  have c: "concat (map (\<lambda>r. case r of Inr s \<Rightarrow> [s] | Inl _ \<Rightarrow> [])
             (map Inr ss :: (issue list + string) list)) = ss"
    by (induction ss) simp_all
  show ?thesis
    unfolding parse_tags_def
    by (simp add: parse_tags_enumerate[OF assms] Let_def errs_def c del: map_map)
qed

lemma parse_tags_absent: "parse_tags None = Inr []"
  by (simp add: parse_tags_def)

lemma parse_tag_outside:
  "\<forall>s\<in>set AllowedTags. x \<noteq> JStr s \<Longrightarrow> \<exists>i. parse_tag p x = Inl [i]"
  by (cases x) (auto simp: parse_tag_def)

lemma parse_tags_outside:
  assumes x: "x \<in> set xs" and out: "\<forall>s\<in>set AllowedTags. x \<noteq> JStr s"
  shows "\<exists>issues. parse_tags (Some (JArr xs)) = Inl issues"
proof -
  from x obtain n where n: "n < length xs" "xs ! n = x" by (auto simp: in_set_conv_nth)
  then have mem: "(n, x) \<in> set (enumerate 0 xs)" by (auto simp: in_set_enumerate_eq)
  obtain i where i: "parse_tag [Key ''tags'', Index n] x = Inl [i]"
    using parse_tag_outside[OF out] by blast
  let ?rs = "map (\<lambda>(i, x). parse_tag [Key ''tags'', Index i] x) (enumerate 0 xs)"
  have "errs (parse_tag [Key ''tags'', Index n] x) \<noteq> []"
    using i by (simp add: errs_def)
  then have "\<exists>p\<in>set (enumerate 0 xs).
      errs (case p of (i, x) \<Rightarrow> parse_tag [Key ''tags'', Index i] x) \<noteq> []"
    using mem by (intro bexI[of _ "(n, x)"]) simp_all
  then have "concat (map errs ?rs) \<noteq> []" by simp
  then show ?thesis by (simp add: parse_tags_def Let_def del: map_map)
qed

lemma AIResponseSchema_tags_rejected:
  "parse_tags (map_of kvs ''tags'') = Inl is \<Longrightarrow>
     \<exists>issues. AIResponseSchema_safeParse (JObj kvs) = Inl issues"
  by (auto simp: AIResponseSchema_object split: sum.splits)

text \<open>
  Claim C4 asks for a schema error on more than 3 tags. The schema the route validates
  with has no such bound (the bound is only in the descriptor sent to the model): the
  reply with the four tags Quality, Price, Service, Delivery passes validation, the answer
  is 200, and the document is pushed with all four tags.
\<close>

theorem C4_four_tags_persisted:
  "AIResponseSchema_safeParse
     (example_reply 92 (Some (JArr [JStr ''Quality'', JStr ''Price'', JStr ''Service'', JStr ''Delivery''])))
     = Inr \<lparr>response = ''Thanks!'', summary = ''Happy customer'', action = ''None needed'',
            sentiment_score = 92, tags = [''Quality'', ''Price'', ''Service'', ''Delivery'']\<rparr>
   \<and> status (http (POST
         (parses_as
            (example_reply_text ''92'' '',\"tags\":[\"Quality\",\"Price\",\"Service\",\"Delivery\"]'')
            (example_reply 92 (Some (JArr [JStr ''Quality'', JStr ''Price'', JStr ''Service'', JStr ''Delivery'']))))
         (example_env (Inr example_body)
            (Inr (Some (example_reply_text ''92'' '',\"tags\":[\"Quality\",\"Price\",\"Service\",\"Delivery\"]''))) None)
         Map.empty ''10.0.0.1'')) = 200
   \<and> map ai_tags (pushed (POST
         (parses_as
            (example_reply_text ''92'' '',\"tags\":[\"Quality\",\"Price\",\"Service\",\"Delivery\"]'')
            (example_reply 92 (Some (JArr [JStr ''Quality'', JStr ''Price'', JStr ''Service'', JStr ''Delivery'']))))
         (example_env (Inr example_body)
            (Inr (Some (example_reply_text ''92'' '',\"tags\":[\"Quality\",\"Price\",\"Service\",\"Delivery\"]''))) None)
         Map.empty ''10.0.0.1'')) = [[''Quality'', ''Price'', ''Service'', ''Delivery'']]"
proof -
  let ?tags = "[''Quality'', ''Price'', ''Service'', ''Delivery'']"
  let ?j = "example_reply 92 (Some (JArr [JStr ''Quality'', JStr ''Price'', JStr ''Service'', JStr ''Delivery'']))"
  let ?t = "example_reply_text ''92'' '',\"tags\":[\"Quality\",\"Price\",\"Service\",\"Delivery\"]''"
  let ?e = "example_env (Inr example_body) (Inr (Some ?t)) None"
  have tg: "parse_tags (Some (JArr (map JStr ?tags))) = Inr ?tags"
    by (rule parse_tags_any_length) (simp add: AllowedTags_def)
  have ok: "AIResponseSchema_safeParse ?j
     = Inr \<lparr>response = ''Thanks!'', summary = ''Happy customer'', action = ''None needed'',
            sentiment_score = 92, tags = ?tags\<rparr>"
    using tg by (simp add: example_reply_tags AIResponseSchema_object parse_nonempty_def
        parse_sentiment_score_def)
  have pt: "parse_ai_text (parses_as ?t ?j) (Some ?t) = (Some ?j, [])"
    by (simp add: parse_ai_text_cases example_reply_text_nonempty parses_as_same)
  have tr: "truthy ?j" by (simp add: example_reply_def)
  have post: "POST (parses_as ?t ?j) ?e Map.empty ''10.0.0.1'' =
      after_generateContent (parses_as ?t ?j) ?e
        (snd (isRateLimited Map.empty ''10.0.0.1'' (clock_now ?e))) 5 ''Great service, very happy!'' (Some ?t)"
    by (simp add: POST_valid_body[OF example_admitted example_env_sel(1) example_body_valid]
        example_env_sel)
  show ?thesis
    unfolding post after_generateContent_valid[OF pt tr ok]
    using ok by (simp add: example_env_sel success_response_def reviewData_def)
qed

text \<open>
  Claim C6, as the code has it. For an admitted request with a valid body, a model response
  with no text (undefined or empty) and one whose text \<^verbatim>\<open>JSON.parse\<close> rejects end in the
  same way: the 500 response for a failed parse, and no document pushed. The only
  difference is the log line, written with the text in the second case.
\<close>

theorem C6_no_text_or_unparseable:
  assumes adm: "\<not> limited (fst (isRateLimited store ip (clock_now e)))"
    and bd: "request_json e = Inr b"
    and form: "ReviewFormSchema_safeParse b = Inr (r, v)"
    and ai: "generateContent e (Analyze r v) = Inr text"
    and bad: "text = None \<or> text = Some [] \<or> (\<exists>t. text = Some t \<and> JSON_parse t = None)"
  shows "http (POST JSON_parse e store ip) = parsing_failed_response
       \<and> status (http (POST JSON_parse e store ip)) = 500
       \<and> pushed (POST JSON_parse e store ip) = []
       \<and> logs (POST JSON_parse e store ip)
           = (case text of None \<Rightarrow> [] | Some t \<Rightarrow> if t = [] then [] else [LogParseFailed t])"
proof -
  have pt: "parse_ai_text JSON_parse text =
      (None, case text of None \<Rightarrow> [] | Some t \<Rightarrow> if t = [] then [] else [LogParseFailed t])"
    using bad by (auto simp: parse_ai_text_def)
  show ?thesis
    by (simp add: POST_valid_body[OF adm bd form] ai after_generateContent_unparsed[OF pt]
        parsing_failed_response_def)
qed

theorem C6_no_text_or_unparseable_witness:
  "http (POST (\<lambda>_. None)
      (example_env (Inr example_body) (Inr (Some ''I am sorry, I cannot help with that.'')) None)
      Map.empty ''10.0.0.1'') = parsing_failed_response
   \<and> pushed (POST (\<lambda>_. None)
      (example_env (Inr example_body) (Inr (Some ''I am sorry, I cannot help with that.'')) None)
      Map.empty ''10.0.0.1'') = []
   \<and> logs (POST (\<lambda>_. None)
      (example_env (Inr example_body) (Inr (Some ''I am sorry, I cannot help with that.'')) None)
      Map.empty ''10.0.0.1'') = [LogParseFailed ''I am sorry, I cannot help with that.'']"
proof -
  have bad: "Some ''I am sorry, I cannot help with that.'' = None
      \<or> Some ''I am sorry, I cannot help with that.'' = Some []
      \<or> (\<exists>t. Some ''I am sorry, I cannot help with that.'' = Some t \<and> (\<lambda>_. None :: json option) t = None)"
    by simp
  show ?thesis
    using C6_no_text_or_unparseable[OF example_admitted example_env_sel(1) example_body_valid
        example_env_sel(2) bad]
    by simp
qed

text \<open>
  Claim C6 as stated makes the two failures distinct outcomes. Apart from the log they are
  the same outcome: same response, same store, same calls, nothing pushed.
\<close>

theorem C6_counterexample:
  "(POST (\<lambda>_. None) (example_env (Inr example_body) (Inr None) None) Map.empty ''10.0.0.1'')
     \<lparr>logs := []\<rparr>
   = (POST (\<lambda>_. None)
        (example_env (Inr example_body) (Inr (Some ''I am sorry, I cannot help with that.'')) None)
        Map.empty ''10.0.0.1'')
     \<lparr>logs := []\<rparr>"
proof -
  have p1: "parse_ai_text (\<lambda>_. None) None = (None, [])"
    by (simp add: parse_ai_text_cases)
  have p2: "parse_ai_text (\<lambda>_. None) (Some ''I am sorry, I cannot help with that.'')
      = (None, [LogParseFailed ''I am sorry, I cannot help with that.''])"
    by (simp add: parse_ai_text_cases)
  show ?thesis
    by (simp add: POST_valid_body[OF example_admitted example_env_sel(1) example_body_valid]
        example_env_sel after_generateContent_unparsed[OF p1] after_generateContent_unparsed[OF p2]
        example_env_clock)
qed

lemma after_generateContent_500:
  assumes "status (http (after_generateContent JSON_parse e store' r v text)) = 500"
  shows "http (after_generateContent JSON_parse e store' r v text) = parsing_failed_response
       \<or> http (after_generateContent JSON_parse e store' r v text) = invalid_structure_response
       \<or> (\<exists>d ex. db_push e d = Some ex
             \<and> http (after_generateContent JSON_parse e store' r v text) = caught ex)"
proof -
  obtain aiJson plogs where pt: "parse_ai_text JSON_parse text = (aiJson, plogs)"
    by (cases "parse_ai_text JSON_parse text")
  show ?thesis
  proof (cases aiJson)
    case None
    then show ?thesis using pt by (simp add: after_generateContent_unparsed)
  next
    case (Some j)
    show ?thesis
    proof (cases "truthy j")
      case False
      then show ?thesis using pt Some by (simp add: after_generateContent_falsy)
    next
      case True
      show ?thesis
      proof (cases "AIResponseSchema_safeParse j")
        case (Inl issues)
        then show ?thesis using pt Some True by (simp add: after_generateContent_invalid)
      next
        case (Inr aiData)
        note v = after_generateContent_valid[OF pt[unfolded Some] True Inr, of e store' r v]
        show ?thesis
        proof (cases "db_push e (reviewData r v aiData (max 0 (round (perf_end e - perf_start e))) (created_now e))")
          case None
          then have "status (http (after_generateContent JSON_parse e store' r v text)) = 200"
            unfolding v by (simp add: success_response_def)
          then show ?thesis using assms by simp
        next
          case (Some ex)
          then have "http (after_generateContent JSON_parse e store' r v text) = caught ex"
            unfolding v by simp
          then show ?thesis using Some by blast
        qed
      qed
    qed
  qed
qed

lemma caught_ErrorObj:
  "caught (ErrorObj m st) =
     \<lparr>status = 500, headers = [],
      body = JObj ([(''success'', JBool False), (''error'', JStr ''Internal server error''),
                    (''details'', JStr m)]
                   @ (case st of None \<Rightarrow> [] | Some s \<Rightarrow> [(''stack'', JStr s)]))\<rparr>"
  by (cases st) (simp_all add: caught_def)

lemma caught_OtherThrown:
  "caught OtherThrown =
     \<lparr>status = 500, headers = [],
      body = JObj [(''success'', JBool False), (''error'', JStr ''Internal server error''),
                   (''details'', JStr ''Unknown error'')]\<rparr>"
  by (simp add: caught_def)

lemma parse_ai_text_unusable:
  assumes "rtext = None \<or> rtext = Some []
         \<or> (\<exists>t. rtext = Some t \<and> (JSON_parse t = None \<or> (\<exists>j. JSON_parse t = Some j \<and> \<not> truthy j)))"
  shows "\<exists>plogs. parse_ai_text JSON_parse rtext = (None, plogs)
         \<or> (\<exists>j. parse_ai_text JSON_parse rtext = (Some j, plogs) \<and> \<not> truthy j)"
  using assms by (auto simp: parse_ai_text_def)

text \<open>
  Claim C7, as the code has it. For an admitted request, every server-side failure has
  its response fixed by its kind, and nothing is pushed:
  \<^item> the body reader or the model throws \<open>ex\<close>: the response of the \<^verbatim>\<open>catch\<close> block for \<open>ex\<close>;
  \<^item> the model returns no text, empty text, text \<^verbatim>\<open>JSON.parse\<close> rejects, or text that parses
    to a falsy value: the fixed 500 body \<^verbatim>\<open>AI response parsing failed\<close>;
  \<^item> the text parses to a value the schema rejects: the fixed 500 body
    \<^verbatim>\<open>Invalid AI response structure\<close>;
  \<^item> the database throws \<open>ex\<close> on the push: the response of the \<^verbatim>\<open>catch\<close> block for \<open>ex\<close>.

  Conversely a 500 after the model has answered is one of these three. The two fixed
  bodies do not contain the model's text. The response of the \<^verbatim>\<open>catch\<close> block has status
  500, the generic \<open>error\<close> string and, for an \<^verbatim>\<open>Error\<close>, its message under \<open>details\<close> and,
  when it has one, its stack under \<open>stack\<close>.
\<close>

theorem C7_failure_responses:
  assumes adm: "\<not> limited (fst (isRateLimited store ip (clock_now e)))"
  shows "(request_json e = Inl ex \<longrightarrow>
            http (POST JSON_parse e store ip) = caught ex
          \<and> pushed (POST JSON_parse e store ip) = [])
       \<and> (request_json e = Inr b \<and> ReviewFormSchema_safeParse b = Inr (r, v)
            \<and> generateContent e (Analyze r v) = Inl ex
          \<longrightarrow> http (POST JSON_parse e store ip) = caught ex
            \<and> pushed (POST JSON_parse e store ip) = [])
       \<and> (request_json e = Inr b \<and> ReviewFormSchema_safeParse b = Inr (r, v)
            \<and> generateContent e (Analyze r v) = Inr rtext
            \<and> (rtext = None \<or> rtext = Some []
                \<or> (\<exists>t. rtext = Some t
                        \<and> (JSON_parse t = None \<or> (\<exists>j. JSON_parse t = Some j \<and> \<not> truthy j))))
          \<longrightarrow> http (POST JSON_parse e store ip)
                = \<lparr>status = 500, headers = [],
                   body = JObj [(''success'', JBool False),
                                (''error'', JStr ''AI response parsing failed''),
                                (''details'', JStr ''No parsed content or valid text returned'')]\<rparr>
            \<and> pushed (POST JSON_parse e store ip) = [])
       \<and> (request_json e = Inr b \<and> ReviewFormSchema_safeParse b = Inr (r, v)
            \<and> generateContent e (Analyze r v) = Inr (Some t) \<and> t \<noteq> []
            \<and> JSON_parse t = Some j \<and> truthy j
            \<and> AIResponseSchema_safeParse j = Inl issues
          \<longrightarrow> http (POST JSON_parse e store ip)
                = \<lparr>status = 500, headers = [],
                   body = JObj [(''success'', JBool False),
                                (''error'', JStr ''Invalid AI response structure'')]\<rparr>
            \<and> pushed (POST JSON_parse e store ip) = [])
       \<and> (request_json e = Inr b \<and> ReviewFormSchema_safeParse b = Inr (r, v)
            \<and> generateContent e (Analyze r v) = Inr (Some t) \<and> t \<noteq> []
            \<and> JSON_parse t = Some j \<and> truthy j
            \<and> AIResponseSchema_safeParse j = Inr aiData
            \<and> db_push e (reviewData r v aiData (max 0 (round (perf_end e - perf_start e)))
                           (created_now e)) = Some ex
          \<longrightarrow> http (POST JSON_parse e store ip) = caught ex
            \<and> pushed (POST JSON_parse e store ip) = [])
       \<and> (request_json e = Inr b \<and> ReviewFormSchema_safeParse b = Inr (r, v)
            \<and> generateContent e (Analyze r v) = Inr rtext
            \<and> status (http (POST JSON_parse e store ip)) = 500
          \<longrightarrow> http (POST JSON_parse e store ip) = parsing_failed_response
            \<or> http (POST JSON_parse e store ip) = invalid_structure_response
            \<or> (\<exists>d ex'. db_push e d = Some ex' \<and> http (POST JSON_parse e store ip) = caught ex'))
       \<and> caught (ErrorObj m st)
           = \<lparr>status = 500, headers = [],
              body = JObj ([(''success'', JBool False), (''error'', JStr ''Internal server error''),
                            (''details'', JStr m)]
                           @ (case st of None \<Rightarrow> [] | Some s \<Rightarrow> [(''stack'', JStr s)]))\<rparr>
       \<and> caught OtherThrown
           = \<lparr>status = 500, headers = [],
              body = JObj [(''success'', JBool False), (''error'', JStr ''Internal server error''),
                           (''details'', JStr ''Unknown error'')]\<rparr>"
proof -
  let ?s = "snd (isRateLimited store ip (clock_now e))"
  have c1: "request_json e = Inl ex \<longrightarrow>
            http (POST JSON_parse e store ip) = caught ex
          \<and> pushed (POST JSON_parse e store ip) = []"
    using adm by (simp add: POST_admitted after_admission_body_throws)
  have c2: "request_json e = Inr b \<and> ReviewFormSchema_safeParse b = Inr (r, v)
            \<and> generateContent e (Analyze r v) = Inl ex
          \<longrightarrow> http (POST JSON_parse e store ip) = caught ex
            \<and> pushed (POST JSON_parse e store ip) = []"
    using adm by (simp add: POST_valid_body)
  have c3: "request_json e = Inr b \<and> ReviewFormSchema_safeParse b = Inr (r, v)
            \<and> generateContent e (Analyze r v) = Inr rtext
            \<and> (rtext = None \<or> rtext = Some []
                \<or> (\<exists>t. rtext = Some t
                        \<and> (JSON_parse t = None \<or> (\<exists>j. JSON_parse t = Some j \<and> \<not> truthy j))))
          \<longrightarrow> http (POST JSON_parse e store ip)
                = \<lparr>status = 500, headers = [],
                   body = JObj [(''success'', JBool False),
                                (''error'', JStr ''AI response parsing failed''),
                                (''details'', JStr ''No parsed content or valid text returned'')]\<rparr>
            \<and> pushed (POST JSON_parse e store ip) = []"
  proof
    assume a: "request_json e = Inr b \<and> ReviewFormSchema_safeParse b = Inr (r, v)
            \<and> generateContent e (Analyze r v) = Inr rtext
            \<and> (rtext = None \<or> rtext = Some []
                \<or> (\<exists>t. rtext = Some t
                        \<and> (JSON_parse t = None \<or> (\<exists>j. JSON_parse t = Some j \<and> \<not> truthy j))))"
    then have p: "POST JSON_parse e store ip = after_generateContent JSON_parse e ?s r v rtext"
      using adm by (simp add: POST_valid_body)
    from a obtain plogs where
      "parse_ai_text JSON_parse rtext = (None, plogs)
         \<or> (\<exists>j. parse_ai_text JSON_parse rtext = (Some j, plogs) \<and> \<not> truthy j)"
      using parse_ai_text_unusable[of rtext JSON_parse] by blast
    then have "after_generateContent JSON_parse e ?s r v rtext =
        \<lparr>http = parsing_failed_response, rl_store = ?s, ai_calls = [Analyze r v],
         pushed = [], logs = plogs\<rparr>"
      using after_generateContent_unparsed[of JSON_parse rtext plogs e ?s r v]
        after_generateContent_falsy[of JSON_parse rtext _ plogs e ?s r v] by blast
    then show "http (POST JSON_parse e store ip)
                = \<lparr>status = 500, headers = [],
                   body = JObj [(''success'', JBool False),
                                (''error'', JStr ''AI response parsing failed''),
                                (''details'', JStr ''No parsed content or valid text returned'')]\<rparr>
            \<and> pushed (POST JSON_parse e store ip) = []"
      unfolding p by (simp add: parsing_failed_response_def)
  qed
  have c4: "request_json e = Inr b \<and> ReviewFormSchema_safeParse b = Inr (r, v)
            \<and> generateContent e (Analyze r v) = Inr (Some t) \<and> t \<noteq> []
            \<and> JSON_parse t = Some j \<and> truthy j
            \<and> AIResponseSchema_safeParse j = Inl issues
          \<longrightarrow> http (POST JSON_parse e store ip)
                = \<lparr>status = 500, headers = [],
                   body = JObj [(''success'', JBool False),
                                (''error'', JStr ''Invalid AI response structure'')]\<rparr>
            \<and> pushed (POST JSON_parse e store ip) = []"
  proof
    assume a: "request_json e = Inr b \<and> ReviewFormSchema_safeParse b = Inr (r, v)
            \<and> generateContent e (Analyze r v) = Inr (Some t) \<and> t \<noteq> []
            \<and> JSON_parse t = Some j \<and> truthy j
            \<and> AIResponseSchema_safeParse j = Inl issues"
    then have p: "POST JSON_parse e store ip = after_generateContent JSON_parse e ?s r v (Some t)"
      using adm by (simp add: POST_valid_body)
    from a have pt: "parse_ai_text JSON_parse (Some t) = (Some j, [])"
      by (simp add: parse_ai_text_cases)
    from a have tr: "truthy j" and bad: "AIResponseSchema_safeParse j = Inl issues" by simp_all
    show "http (POST JSON_parse e store ip)
                = \<lparr>status = 500, headers = [],
                   body = JObj [(''success'', JBool False),
                                (''error'', JStr ''Invalid AI response structure'')]\<rparr>
            \<and> pushed (POST JSON_parse e store ip) = []"
      unfolding p after_generateContent_invalid[OF pt tr bad]
      by (simp add: invalid_structure_response_def)
  qed
  have c5: "request_json e = Inr b \<and> ReviewFormSchema_safeParse b = Inr (r, v)
            \<and> generateContent e (Analyze r v) = Inr (Some t) \<and> t \<noteq> []
            \<and> JSON_parse t = Some j \<and> truthy j
            \<and> AIResponseSchema_safeParse j = Inr aiData
            \<and> db_push e (reviewData r v aiData (max 0 (round (perf_end e - perf_start e)))
                           (created_now e)) = Some ex
          \<longrightarrow> http (POST JSON_parse e store ip) = caught ex
            \<and> pushed (POST JSON_parse e store ip) = []"
  proof
    assume a: "request_json e = Inr b \<and> ReviewFormSchema_safeParse b = Inr (r, v)
            \<and> generateContent e (Analyze r v) = Inr (Some t) \<and> t \<noteq> []
            \<and> JSON_parse t = Some j \<and> truthy j
            \<and> AIResponseSchema_safeParse j = Inr aiData
            \<and> db_push e (reviewData r v aiData (max 0 (round (perf_end e - perf_start e)))
                           (created_now e)) = Some ex"
    then have p: "POST JSON_parse e store ip = after_generateContent JSON_parse e ?s r v (Some t)"
      using adm by (simp add: POST_valid_body)
    from a have pt: "parse_ai_text JSON_parse (Some t) = (Some j, [])"
      by (simp add: parse_ai_text_cases)
    from a have tr: "truthy j" and ok: "AIResponseSchema_safeParse j = Inr aiData" by simp_all
    show "http (POST JSON_parse e store ip) = caught ex
            \<and> pushed (POST JSON_parse e store ip) = []"
      unfolding p after_generateContent_valid[OF pt tr ok] using a by simp
  qed
  have c6: "request_json e = Inr b \<and> ReviewFormSchema_safeParse b = Inr (r, v)
            \<and> generateContent e (Analyze r v) = Inr rtext
            \<and> status (http (POST JSON_parse e store ip)) = 500
          \<longrightarrow> http (POST JSON_parse e store ip) = parsing_failed_response
            \<or> http (POST JSON_parse e store ip) = invalid_structure_response
            \<or> (\<exists>d ex'. db_push e d = Some ex' \<and> http (POST JSON_parse e store ip) = caught ex')"
  proof
    assume a: "request_json e = Inr b \<and> ReviewFormSchema_safeParse b = Inr (r, v)
            \<and> generateContent e (Analyze r v) = Inr rtext
            \<and> status (http (POST JSON_parse e store ip)) = 500"
    then have p: "POST JSON_parse e store ip = after_generateContent JSON_parse e ?s r v rtext"
      using adm by (simp add: POST_valid_body)
    show "http (POST JSON_parse e store ip) = parsing_failed_response
            \<or> http (POST JSON_parse e store ip) = invalid_structure_response
            \<or> (\<exists>d ex'. db_push e d = Some ex' \<and> http (POST JSON_parse e store ip) = caught ex')"
      using a after_generateContent_500[of JSON_parse e ?s r v rtext]
      unfolding p by blast
  qed
  show ?thesis
    using c1 c2 c3 c4 c5 c6 caught_ErrorObj[of m st] caught_OtherThrown by blast
qed

theorem C7_failure_responses_witness:
  "http (POST (\<lambda>_. None)
      (example_env (Inr example_body)
         (Inl (ErrorObj ''fetch failed''
                 (Some ''TypeError: fetch failed at generateContent (app/api/review/route.ts:129)''))) None)
      Map.empty ''10.0.0.1'')
     = \<lparr>status = 500, headers = [],
        body = JObj [(''success'', JBool False),
                     (''error'', JStr ''Internal server error''),
                     (''details'', JStr ''fetch failed''),
                     (''stack'', JStr ''TypeError: fetch failed at generateContent (app/api/review/route.ts:129)'')]\<rparr>
   \<and> http (POST (parses_as ''{\"response\":42}'' (JObj [(''response'', JNum 42)]))
      (example_env (Inr example_body) (Inr (Some ''{\"response\":42}'')) None)
      Map.empty ''10.0.0.1'')
     = \<lparr>status = 500, headers = [],
        body = JObj [(''success'', JBool False),
                     (''error'', JStr ''Invalid AI response structure'')]\<rparr>
   \<and> http (POST (parses_as (example_reply_text ''92'' []) (example_reply 92 None))
      (example_env (Inr example_body) (Inr (Some (example_reply_text ''92'' [])))
         (Some (ErrorObj ''PERMISSION_DENIED'' None)))
      Map.empty ''10.0.0.1'')
     = \<lparr>status = 500, headers = [],
        body = JObj [(''success'', JBool False),
                     (''error'', JStr ''Internal server error''),
                     (''details'', JStr ''PERMISSION_DENIED'')]\<rparr>
   \<and> pushed (POST (parses_as (example_reply_text ''92'' []) (example_reply 92 None))
      (example_env (Inr example_body) (Inr (Some (example_reply_text ''92'' [])))
         (Some (ErrorObj ''PERMISSION_DENIED'' None)))
      Map.empty ''10.0.0.1'') = []"
proof -
  let ?stack = "''TypeError: fetch failed at generateContent (app/api/review/route.ts:129)''"
  let ?ex = "ErrorObj ''fetch failed'' (Some ?stack)"
  let ?e1 = "example_env (Inr example_body) (Inl ?ex) None"
  let ?e2 = "example_env (Inr example_body) (Inr (Some ''{\"response\":42}'')) None"
  let ?e3 = "example_env (Inr example_body) (Inr (Some (example_reply_text ''92'' [])))
               (Some (ErrorObj ''PERMISSION_DENIED'' None))"
  let ?j2 = "JObj [(''response'', JNum 42)]"
  have h1: "http (POST (\<lambda>_. None) ?e1 Map.empty ''10.0.0.1'') = caught ?ex"
    using C7_failure_responses[OF example_admitted, of "Inr example_body" "Inl ?ex" None ?ex
        "\<lambda>_. None" example_body 5 "''Great service, very happy!''"]
    by (simp add: example_env_sel example_body_valid)
  have bad: "AIResponseSchema_safeParse ?j2 =
      Inl (errs (parse_nonempty ''response'' (Some (JNum 42)))
           @ errs (parse_nonempty ''summary'' None) @ errs (parse_nonempty ''action'' None)
           @ errs (parse_sentiment_score None) @ errs (parse_tags None))"
    by (simp add: AIResponseSchema_object parse_nonempty_def parse_sentiment_score_def
        parse_tags_def)
  have h2: "http (POST (parses_as ''{\"response\":42}'' ?j2) ?e2 Map.empty ''10.0.0.1'')
     = \<lparr>status = 500, headers = [],
        body = JObj [(''success'', JBool False),
                     (''error'', JStr ''Invalid AI response structure'')]\<rparr>"
    using C7_failure_responses[OF example_admitted, THEN conjunct2, THEN conjunct2, THEN conjunct2,
        THEN conjunct1, of "Inr example_body" "Inr (Some ''{\"response\":42}'')" None example_body 5
        "''Great service, very happy!''" "''{\"response\":42}''" "parses_as ''{\"response\":42}'' ?j2" ?j2] bad
    by (simp add: example_env_sel example_body_valid parses_as_same)
  have ok: "AIResponseSchema_safeParse (example_reply 92 None)
      = Inr \<lparr>response = ''Thanks!'', summary = ''Happy customer'', action = ''None needed'',
             sentiment_score = 92, tags = []\<rparr>"
    by (simp add: example_reply_no_tags AIResponseSchema_object parse_nonempty_def
        parse_sentiment_score_def parse_tags_def)
  have h3: "http (POST (parses_as (example_reply_text ''92'' []) (example_reply 92 None)) ?e3
              Map.empty ''10.0.0.1'') = caught (ErrorObj ''PERMISSION_DENIED'' None)
          \<and> pushed (POST (parses_as (example_reply_text ''92'' []) (example_reply 92 None)) ?e3
              Map.empty ''10.0.0.1'') = []"
    using C7_failure_responses[OF example_admitted, THEN conjunct2, THEN conjunct2, THEN conjunct2,
        THEN conjunct2, THEN conjunct1,
        of "Inr example_body" "Inr (Some (example_reply_text ''92'' []))"
        "Some (ErrorObj ''PERMISSION_DENIED'' None)" example_body 5
        "''Great service, very happy!''" "example_reply_text ''92'' []"
        "parses_as (example_reply_text ''92'' []) (example_reply 92 None)" "example_reply 92 None"] ok
    by (simp add: example_env_sel example_body_valid parses_as_same example_reply_text_nonempty
        example_reply_def)
  show ?thesis
    using h1 h2 h3 by (simp add: caught_def)
qed

text \<open>
  Claim C7 as stated keeps stack detail out of every failure response. When the model call
  throws, the response carries the error's stack.
\<close>

theorem C7_counterexample:
  "get_prop (body (http (POST (\<lambda>_. None)
      (example_env (Inr example_body)
         (Inl (ErrorObj ''fetch failed''
                 (Some ''TypeError: fetch failed at generateContent (app/api/review/route.ts:129)''))) None)
      Map.empty ''10.0.0.1''))) ''stack''
     = Some (JStr ''TypeError: fetch failed at generateContent (app/api/review/route.ts:129)'')"
  by (simp add: POST_valid_body[OF example_admitted example_env_sel(1) example_body_valid]
      example_env_sel caught_def get_prop_def)

section \<open>Properties of the report route\<close>

lemma those_length: "those xs = Some ys \<Longrightarrow> length ys = length xs"
proof (induction xs arbitrary: ys)
  case Nil
  then show ?case by simp
next
  case (Cons x xs)
  then show ?case by (auto split: option.splits)
qed


lemma length_limitToLast: "length (limitToLast n xs) = min n (length xs)"
  by (auto simp: limitToLast_def)

















end
